theory Spec2Isabelle
  imports Main
begin

section \<open>Values, errors and log entries\<close>

text \<open>
  The extension manager of \<^verbatim>\<open>src/util/ExtensionManager.ts\<close> handles values it never
  looks into (call arguments, state values). They are modelled by the few shapes the
  code distinguishes: \<^verbatim>\<open>undefined\<close>, strings, numbers and references to objects or
  functions, which \<^verbatim>\<open>===\<close> compares by identity. \<^verbatim>\<open>NaN\<close> is the one value that is
  not \<^verbatim>\<open>===\<close> to itself.
\<close>

datatype jsval =
    JUndefined
  | JNull
  | JBool bool
  | JNum int
  | JNaN
  | JStr string
  | JRef nat

fun strict_equals :: "jsval \<Rightarrow> jsval \<Rightarrow> bool" where
  "strict_equals JNaN _ = False"
| "strict_equals _ JNaN = False"
| "strict_equals a b = (a = b)"

text \<open>
  Error objects, by their message. A \<^verbatim>\<open>TypeError\<close> is what the engine throws when a
  value that is no function is called or a property of \<^verbatim>\<open>null\<close> or \<^verbatim>\<open>undefined\<close> is
  read.
\<close>

datatype js_error =
    Error string
  | TypeError string

fun err_message :: "js_error \<Rightarrow> string" where
  "err_message (Error m) = m"
| "err_message (TypeError m) = m"

text \<open>
  \<^verbatim>\<open>throw\<close> takes any value: an error object, or another value such as \<^verbatim>\<open>null\<close>,
  \<^verbatim>\<open>undefined\<close> or a string. The catch blocks of the source read \<^verbatim>\<open>err.message\<close>, one
  of them also \<^verbatim>\<open>err.stack\<close>. On \<^verbatim>\<open>null\<close> and \<^verbatim>\<open>undefined\<close> that read throws a
  \<^verbatim>\<open>TypeError\<close> of its own; on another value that is no error object it gives
  \<^verbatim>\<open>undefined\<close>. Of the text of a stack trace only the first line is modelled.
\<close>

datatype thrown = Err js_error | Val jsval

fun read_message :: "thrown \<Rightarrow> js_error + jsval" where
  "read_message (Err e) = Inr (JStr (err_message e))"
| "read_message (Val JUndefined) = Inl (TypeError ''Cannot read property 'message' of undefined'')"
| "read_message (Val JNull) = Inl (TypeError ''Cannot read property 'message' of null'')"
| "read_message (Val v) = Inr JUndefined"

fun err_stack :: "js_error \<Rightarrow> string" where
  "err_stack (Error m) = ''Error: '' @ m"
| "err_stack (TypeError m) = ''TypeError: '' @ m"

fun read_stack :: "thrown \<Rightarrow> jsval" where
  "read_stack (Err e) = JStr (err_stack e)"
| "read_stack (Val v) = JUndefined"

text \<open>\<^verbatim>\<open>log(level, message, metadata)\<close> of \<^verbatim>\<open>./log\<close>: the entries written, in order.\<close>

datatype log_entry = Log string string "(string \<times> jsval) list"

text \<open>
  A function value handed to the manager (the callback of an API addition, a state
  change callback): its identity and what a call of it does, which is to return or to
  throw. What else the function does is outside the manager.
\<close>

datatype callback_fn = Callback nat "jsval list \<Rightarrow> thrown option"

fun cb_id :: "callback_fn \<Rightarrow> nat" where
  "cb_id (Callback i f) = i"

fun cb_call :: "callback_fn \<Rightarrow> jsval list \<Rightarrow> thrown option" where
  "cb_call (Callback i f) args = f args"

fun opt_str :: "string option \<Rightarrow> jsval" where
  "opt_str None = JUndefined"
| "opt_str (Some s) = JStr s"

section \<open>ContextProxyHandler\<close>

text \<open>
  \<^verbatim>\<open>interface IInitCall\<close> and \<^verbatim>\<open>interface IApiAddition\<close>. The extension name and path
  of a call are those of the handler's cursor, which is \<^verbatim>\<open>undefined\<close> (\<open>None\<close>) until
  \<^verbatim>\<open>setExtension\<close> is first called.
\<close>

record IInitCall =
  extension :: "string option"
  extensionPath :: "string option"
  key :: string
  arguments :: "jsval list"
  optional :: bool

record IApiAddition =
  api_key :: string
  callback :: callback_fn

text \<open>
  A member of the wrapped context object: an object (calling it is a \<^verbatim>\<open>TypeError\<close>) or a
  function of the host (calling it does not reach the recorder).
\<close>

datatype ctx_value = CtxObject | CtxFunction

record ContextProxyHandler =
  mContext :: "string \<rightharpoonup> ctx_value"
  mInitCalls :: "IInitCall list"
  mApiAdditions :: "IApiAddition list"
  mCurrentExtension :: "string option"
  mCurrentPath :: "string option"

definition constructor :: "(string \<rightharpoonup> ctx_value) \<Rightarrow> ContextProxyHandler" where
  "constructor context =
     \<lparr> mContext = context, mInitCalls = [], mApiAdditions = [],
       mCurrentExtension = None, mCurrentPath = None \<rparr>"

text \<open>The closure that \<^verbatim>\<open>mOptional\<close>'s \<^verbatim>\<open>get\<close> returns for \<open>k\<close>, called with \<open>args\<close>.\<close>

definition mOptional_call :: "ContextProxyHandler \<Rightarrow> string \<Rightarrow> jsval list \<Rightarrow> ContextProxyHandler" where
  "mOptional_call that k args =
     that\<lparr> mInitCalls := mInitCalls that @
       [\<lparr> extension = mCurrentExtension that, extensionPath = mCurrentPath that,
          key = k, arguments = args, optional = True \<rparr>] \<rparr>"

definition getCalls :: "ContextProxyHandler \<Rightarrow> string \<Rightarrow> IInitCall list" where
  "getCalls h name = filter (\<lambda>call. key call = name) (mInitCalls h)"

definition setExtension :: "ContextProxyHandler \<Rightarrow> string \<Rightarrow> string \<Rightarrow> ContextProxyHandler" where
  "setExtension h ext extPath = h\<lparr> mCurrentExtension := Some ext, mCurrentPath := Some extPath \<rparr>"

definition has_trap :: "ContextProxyHandler \<Rightarrow> string \<Rightarrow> bool" where
  "has_trap h k = True"

text \<open>
  What \<^verbatim>\<open>get\<close> returns: a member of the context, the \<^verbatim>\<open>mOptional\<close> proxy, or a fresh
  closure that records a call of \<open>k\<close>. The second \<^verbatim>\<open>key in this.mContext\<close> test of the
  source is false whenever it is reached.
\<close>

datatype get_result =
    ContextMember ctx_value
  | OptionalProxy
  | Recorder string

definition get_trap :: "ContextProxyHandler \<Rightarrow> string \<Rightarrow> get_result" where
  "get_trap h k =
     (case mContext h k of
        Some v \<Rightarrow> ContextMember v
      | None \<Rightarrow>
          if k = ''optional'' then OptionalProxy
          else (case mContext h k of Some v \<Rightarrow> ContextMember v | None \<Rightarrow> Recorder k))"

text \<open>The closure that \<^verbatim>\<open>get\<close> returns for a key outside the context, called with \<open>args\<close>.\<close>

definition recorder_call :: "ContextProxyHandler \<Rightarrow> string \<Rightarrow> jsval list \<Rightarrow> ContextProxyHandler" where
  "recorder_call h k args =
     h\<lparr> mInitCalls := mInitCalls h @
       [\<lparr> extension = mCurrentExtension h, extensionPath = mCurrentPath h,
          key = k, arguments = args, optional = False \<rparr>] \<rparr>"

text \<open>
  \<^verbatim>\<open>contextProxy[k](...args)\<close>: the property is read through \<^verbatim>\<open>get\<close> and the result is
  called. The \<^verbatim>\<open>mOptional\<close> proxy wraps a plain object and an object member of the
  context is no function either, so calling them throws and records nothing.
\<close>

definition proxy_invoke :: "ContextProxyHandler \<Rightarrow> string \<Rightarrow> jsval list \<Rightarrow> js_error + ContextProxyHandler" where
  "proxy_invoke h k args =
     (case get_trap h k of
        ContextMember CtxObject \<Rightarrow> Inl (TypeError (k @ '' is not a function''))
      | ContextMember CtxFunction \<Rightarrow> Inr h
      | OptionalProxy \<Rightarrow> Inl (TypeError (k @ '' is not a function''))
      | Recorder k' \<Rightarrow> Inr (recorder_call h k' args))"

text \<open>
  \<^verbatim>\<open>contextProxy.optional[k](...args)\<close>: \<^verbatim>\<open>optional\<close> is read through \<^verbatim>\<open>get\<close>; when the
  context has a member of that name, the member is what is read and \<open>k\<close> is looked up
  on it, which gives no recorder.
\<close>

definition proxy_invoke_optional :: "ContextProxyHandler \<Rightarrow> string \<Rightarrow> jsval list \<Rightarrow> js_error + ContextProxyHandler" where
  "proxy_invoke_optional h k args =
     (case get_trap h ''optional'' of
        OptionalProxy \<Rightarrow> Inr (mOptional_call h k args)
      | _ \<Rightarrow> Inl (TypeError (k @ '' is not a function'')))"

text \<open>\<^verbatim>\<open>contextProxy[k] = value\<close>: the \<^verbatim>\<open>set\<close> trap, with the boolean it returns.\<close>

definition set_trap :: "ContextProxyHandler \<Rightarrow> string \<Rightarrow> callback_fn \<Rightarrow> ContextProxyHandler \<times> bool" where
  "set_trap h k v =
     (h\<lparr> mApiAdditions := mApiAdditions h @ [\<lparr> api_key = k, callback = v \<rparr>] \<rparr>, True)"

definition staticAPIs :: "string list" where
  "staticAPIs =
     [''registerMainPage'', ''registerDashlet'', ''registerDialog'', ''registerSettings'',
      ''registerAction'', ''registerFooter'', ''registerToDo'', ''registerModSource'',
      ''registerReducer'', ''registerPersistor'', ''registerSettingsHive'',
      ''registerTableAttribute'', ''registerTest'', ''registerArchiveType'', ''registerGame'',
      ''registerAttributeExtractor'', ''api'', ''once'', ''onceMain'', ''optional'']"

text \<open>
  A \<^verbatim>\<open>Set<string>\<close> keeps its members in insertion order, each once; \<^verbatim>\<open>join\<close> prints
  an \<^verbatim>\<open>undefined\<close> member as the empty string.
\<close>

definition set_add :: "'a \<Rightarrow> 'a list \<Rightarrow> 'a list" where
  "set_add x xs = (if x \<in> set xs then xs else xs @ [x])"

fun join :: "string \<Rightarrow> string option list \<Rightarrow> string" where
  "join sep [] = []"
| "join sep [x] = (case x of None \<Rightarrow> [] | Some s \<Rightarrow> s)"
| "join sep (x # y # ys) = (case x of None \<Rightarrow> [] | Some s \<Rightarrow> s) @ sep @ join sep (y # ys)"

definition fullAPI :: "string list \<Rightarrow> ContextProxyHandler \<Rightarrow> string list" where
  "fullAPI furtherAPIs h = furtherAPIs @ staticAPIs @ map api_key (mApiAdditions h)"

definition unsupported_calls :: "string list \<Rightarrow> IInitCall list \<Rightarrow> IInitCall list" where
  "unsupported_calls full calls = filter (\<lambda>call. \<not> optional call \<and> key call \<notin> set full) calls"

definition incompatibleExtensions :: "string list \<Rightarrow> IInitCall list \<Rightarrow> string option list" where
  "incompatibleExtensions full calls = fold set_add (map extension (unsupported_calls full calls)) []"

text \<open>
  \<^verbatim>\<open>unloadIncompatible(furtherAPIs)\<close>, with the log entries it writes. \<open>remote\<close> says
  whether the \<^verbatim>\<open>remote\<close> module of electron is defined (the renderer process).
\<close>

definition unloadIncompatible :: "bool \<Rightarrow> string list \<Rightarrow> ContextProxyHandler \<Rightarrow> ContextProxyHandler \<times> log_entry list" where
  "unloadIncompatible remote furtherAPIs h =
     (let full = fullAPI furtherAPIs h;
          incompatible = incompatibleExtensions full (mInitCalls h);
          debug = map (\<lambda>call. Log ''debug'' ''unsupported api call''
                     [(''extension'', opt_str (extension call)), (''api'', JStr (key call))])
                   (unsupported_calls full (mInitCalls h))
      in if length incompatible > 0
         then (h\<lparr> mInitCalls := filter (\<lambda>call. extension call \<notin> set incompatible) (mInitCalls h) \<rparr>,
               debug @ [Log ''info'' ''extensions ignored for using unsupported api''
                          [(''extensions'', JStr (join '', '' incompatible))]])
         else (h, debug @ (if remote then [Log ''debug'' ''all extensions compatible'' []] else [])))"

text \<open>
  The context that \<^verbatim>\<open>initExtensions\<close> wraps is the object literal \<^verbatim>\<open>{ api: this.mApi }\<close>.
  \<^verbatim>\<open>key in context\<close> also finds what the literal inherits from \<^verbatim>\<open>Object.prototype\<close>.
\<close>

definition Object_prototype :: "(string \<times> ctx_value) list" where
  "Object_prototype =
     [(''constructor'', CtxFunction), (''hasOwnProperty'', CtxFunction),
      (''isPrototypeOf'', CtxFunction), (''propertyIsEnumerable'', CtxFunction),
      (''toLocaleString'', CtxFunction), (''toString'', CtxFunction),
      (''valueOf'', CtxFunction), (''__defineGetter__'', CtxFunction),
      (''__defineSetter__'', CtxFunction), (''__lookupGetter__'', CtxFunction),
      (''__lookupSetter__'', CtxFunction), (''__proto__'', CtxObject)]"

definition api_context :: "string \<rightharpoonup> ctx_value" where
  "api_context = map_of ((''api'', CtxObject) # Object_prototype)"

section \<open>invokeAdditions\<close>

text \<open>
  An invocation of a callback is what the outside sees of \<^verbatim>\<open>invokeAdditions\<close>: which
  function was called, with which arguments. \<^verbatim>\<open>forEach\<close> has no guard, so the first
  call that throws ends both loops and what it threw leaves \<^verbatim>\<open>invokeAdditions\<close>.
\<close>

type_synonym invocation = "nat \<times> jsval list"

fun invoke_calls :: "callback_fn \<Rightarrow> IInitCall list \<Rightarrow> invocation list \<Rightarrow> thrown option \<times> invocation list" where
  "invoke_calls cb [] tr = (None, tr)"
| "invoke_calls cb (call # calls) tr =
     (let args = arguments call @ [opt_str (extensionPath call)]
      in case cb_call cb args of
           Some err \<Rightarrow> (Some err, tr @ [(cb_id cb, args)])
         | None \<Rightarrow> invoke_calls cb calls (tr @ [(cb_id cb, args)]))"

fun invoke_each :: "ContextProxyHandler \<Rightarrow> IApiAddition list \<Rightarrow> invocation list \<Rightarrow> thrown option \<times> invocation list" where
  "invoke_each h [] tr = (None, tr)"
| "invoke_each h (addition # additions) tr =
     (case invoke_calls (callback addition) (getCalls h (api_key addition)) tr of
        (Some err, tr') \<Rightarrow> (Some err, tr')
      | (None, tr') \<Rightarrow> invoke_each h additions tr')"

definition invokeAdditions :: "ContextProxyHandler \<Rightarrow> thrown option \<times> invocation list" where
  "invokeAdditions h = invoke_each h (mApiAdditions h) []"

section \<open>ExtensionManager.initExtensions\<close>

text \<open>
  The registration function of an extension is code of the extension. What it does to
  the manager is a sequence of operations on the context proxy, ended by its return or
  by a throw: a call \<^verbatim>\<open>context.k(...args)\<close>, a call \<^verbatim>\<open>context.optional.k(...args)\<close>,
  an assignment \<^verbatim>\<open>context.k = value\<close>, and \<^verbatim>\<open>throw\<close> of a value. An error thrown by
  the proxy itself (calling what is no function) leaves the function the same way.
\<close>

datatype init_op =
    Invoke string "jsval list"
  | InvokeOptional string "jsval list"
  | Assign string callback_fn
  | Throw thrown

record IRegisteredExtension =
  name :: string
  path :: string
  initFunc :: "init_op list"

fun run_op :: "init_op \<Rightarrow> ContextProxyHandler \<Rightarrow> thrown + ContextProxyHandler" where
  "run_op (Invoke k args) h = map_sum Err id (proxy_invoke h k args)"
| "run_op (InvokeOptional k args) h = map_sum Err id (proxy_invoke_optional h k args)"
| "run_op (Assign k v) h = Inr (fst (set_trap h k v))"
| "run_op (Throw t) h = Inl t"

text \<open>What the function throws, if it does, and the handler as it is left.\<close>

fun run_initFunc :: "init_op list \<Rightarrow> ContextProxyHandler \<Rightarrow> thrown option \<times> ContextProxyHandler" where
  "run_initFunc [] h = (None, h)"
| "run_initFunc (op # ops) h =
     (case run_op op h of
        Inl t \<Rightarrow> (Some t, h)
      | Inr h' \<Rightarrow> run_initFunc ops h')"

text \<open>
  The body of \<^verbatim>\<open>this.mExtensions.forEach\<close>, from a handler and the log so far: the error
  that leaves the body, if any, the handler and the log. The catch block reads
  \<^verbatim>\<open>err.message\<close> for the log entry; when that read throws, nothing is logged and the
  error leaves the body. The style manager made in the renderer process is no part of
  the model.
\<close>

definition init_extension :: "bool \<Rightarrow> IRegisteredExtension \<Rightarrow> ContextProxyHandler \<times> log_entry list \<Rightarrow> js_error option \<times> ContextProxyHandler \<times> log_entry list" where
  "init_extension remote ext s =
     (let lg = snd s @ (if remote then [Log ''info'' ''init extension'' [(''name'', JStr (name ext))]] else []);
          h = setExtension (fst s) (name ext) (path ext)
      in case run_initFunc (initFunc ext) h of
           (None, h') \<Rightarrow> (None, h', lg)
         | (Some t, h') \<Rightarrow>
             (case read_message t of
                Inl err \<Rightarrow> (Some err, h', lg)
              | Inr m \<Rightarrow>
                  (None, h', lg @ [Log ''warn'' ''couldn't initialize extension''
                                     [(''name'', JStr (name ext)), (''err'', m)]])))"

text \<open>\<^verbatim>\<open>forEach\<close> over the extensions: an error that leaves the body ends the loop.\<close>

fun register_all :: "bool \<Rightarrow> IRegisteredExtension list \<Rightarrow> ContextProxyHandler \<times> log_entry list \<Rightarrow> js_error option \<times> ContextProxyHandler \<times> log_entry list" where
  "register_all remote [] s = (None, fst s, snd s)"
| "register_all remote (ext # mExtensions) s =
     (case init_extension remote ext s of
        (Some err, s') \<Rightarrow> (Some err, s')
      | (None, s') \<Rightarrow> register_all remote mExtensions s')"

text \<open>
  \<^verbatim>\<open>initExtensions\<close>: the error it throws, or the handler after the filtering and the
  log.
\<close>

definition initExtensions :: "bool \<Rightarrow> string list \<Rightarrow> IRegisteredExtension list \<Rightarrow> js_error + ContextProxyHandler \<times> log_entry list" where
  "initExtensions remote sUIAPIs mExtensions =
     (case register_all remote mExtensions (constructor api_context, []) of
        (Some err, s) \<Rightarrow> Inl err
      | (None, s) \<Rightarrow>
          (let u = unloadIncompatible remote sUIAPIs (fst s)
           in Inr (fst u, snd s @ snd u @
                     (if remote then [Log ''info'' ''all extensions initialized'' []] else []))))"

text \<open>
  What one extension does when its registration function runs on a fresh handler: what
  it throws, the calls it records and the additions it contributes.
\<close>

definition alone :: "(string \<rightharpoonup> ctx_value) \<Rightarrow> IRegisteredExtension \<Rightarrow> thrown option \<times> ContextProxyHandler" where
  "alone ctx ext = run_initFunc (initFunc ext) (setExtension (constructor ctx) (name ext) (path ext))"

definition recorded :: "(string \<rightharpoonup> ctx_value) \<Rightarrow> IRegisteredExtension \<Rightarrow> IInitCall list" where
  "recorded ctx ext = mInitCalls (snd (alone ctx ext))"

definition contributed :: "(string \<rightharpoonup> ctx_value) \<Rightarrow> IRegisteredExtension \<Rightarrow> IApiAddition list" where
  "contributed ctx ext = mApiAdditions (snd (alone ctx ext))"

text \<open>
  The handler \<open>g\<close> with a call log and additions that were there before put in front of
  its own.
\<close>

definition shift :: "IInitCall list \<Rightarrow> IApiAddition list \<Rightarrow> ContextProxyHandler \<Rightarrow> ContextProxyHandler" where
  "shift calls additions g =
     g\<lparr> mInitCalls := calls @ mInitCalls g, mApiAdditions := additions @ mApiAdditions g \<rparr>"

text \<open>The handler when the loop over the extensions has ended, before the filtering.\<close>

definition registered :: "bool \<Rightarrow> IRegisteredExtension list \<Rightarrow> ContextProxyHandler" where
  "registered remote mExtensions = fst (snd (register_all remote mExtensions (constructor api_context, [])))"

section \<open>ExtensionManager.stateChangeHandler\<close>

text \<open>
  A subscription made with \<^verbatim>\<open>mReduxWatcher.watch(watchPath, ...)\<close>: the path it watches, the
  \<^verbatim>\<open>key\<close> its closure has captured and the closure's variable \<^verbatim>\<open>lastValue\<close>, which starts
  \<^verbatim>\<open>undefined\<close>. The part of the manager the watcher uses: the own properties of the
  object \<^verbatim>\<open>mWatches\<close>, and the subscriptions held by \<^verbatim>\<open>mReduxWatcher\<close>, which is
  \<^verbatim>\<open>undefined\<close> (\<open>None\<close>) until \<^verbatim>\<open>setStore\<close> makes it; \<^verbatim>\<open>setupApiMain\<close> installs
  \<^verbatim>\<open>stateChangeHandler\<close> and makes none.
\<close>

record subscription =
  sub_path :: "string list"
  sub_key :: string
  lastValue :: jsval

record watcher_state =
  mWatches :: "string \<rightharpoonup> callback_fn list"
  mReduxWatcher :: "subscription list option"

text \<open>
  \<^verbatim>\<open>stateChangeHandler(watchPath, callback)\<close>: the error it throws, if any, and the state it
  leaves. \<^verbatim>\<open>mWatches\<close> starts as \<^verbatim>\<open>{}\<close>, so for a key that names a member of
  \<^verbatim>\<open>Object.prototype\<close> the read \<^verbatim>\<open>mWatches[key]\<close> is not \<^verbatim>\<open>undefined\<close>: nothing is
  subscribed and \<^verbatim>\<open>push\<close> is no function of what was read. Without a watcher the call
  throws after \<^verbatim>\<open>mWatches[key]\<close> has been set.
\<close>

definition stateChangeHandler :: "watcher_state \<Rightarrow> string list \<Rightarrow> callback_fn \<Rightarrow> js_error option \<times> watcher_state" where
  "stateChangeHandler m watchPath cb =
     (let k = join ''.'' (map Some watchPath)
      in case mWatches m k of
           Some cbs \<Rightarrow> (None, m\<lparr> mWatches := (mWatches m)(k \<mapsto> cbs @ [cb]) \<rparr>)
         | None \<Rightarrow>
             if k \<in> set (map fst Object_prototype)
             then (Some (TypeError ''this.mWatches[key].push is not a function''), m)
             else
               (case mReduxWatcher m of
                  None \<Rightarrow>
                    (Some (TypeError ''Cannot read property 'watch' of undefined''),
                     m\<lparr> mWatches := (mWatches m)(k \<mapsto> []) \<rparr>)
                | Some subs \<Rightarrow>
                    (None,
                     m\<lparr> mWatches := (mWatches m)(k \<mapsto> [cb]),
                        mReduxWatcher := Some (subs @ [\<lparr> sub_path = watchPath, sub_key = k,
                                                         lastValue = JUndefined \<rparr>]) \<rparr>)))"

text \<open>
  The \<^verbatim>\<open>for ... of\<close> loop of the subscription's closure: each callback is called with
  \<^verbatim>\<open>(prevValue, currentValue)\<close> inside its own \<^verbatim>\<open>try\<close>. The catch block reads
  \<^verbatim>\<open>err.message\<close> and \<^verbatim>\<open>err.stack\<close> for the log entry; when that read throws, the error
  leaves the loop. The result is the error that leaves the loop, if any, the calls made
  and the log entries written.
\<close>

fun call_guarded :: "callback_fn list \<Rightarrow> jsval list \<Rightarrow> js_error option \<times> invocation list \<times> log_entry list" where
  "call_guarded [] args = (None, [], [])"
| "call_guarded (cb # cbs) args =
     (case cb_call cb args of
        None \<Rightarrow>
          (let rest = call_guarded cbs args
           in (fst rest, (cb_id cb, args) # fst (snd rest), snd (snd rest)))
      | Some t \<Rightarrow>
          (case read_message t of
             Inl err \<Rightarrow> (Some err, [(cb_id cb, args)], [])
           | Inr m \<Rightarrow>
               (let rest = call_guarded cbs args
                in (fst rest, (cb_id cb, args) # fst (snd rest),
                    Log ''error'' ''state change handler failed''
                      [(''message'', m), (''stack'', read_stack t)] # snd (snd rest)))))"

text \<open>
  The watcher delivers a change to the subscription at index \<open>i\<close>: the closure given to
  \<^verbatim>\<open>mReduxWatcher.watch\<close> runs with \<^verbatim>\<open>prevValue\<close> and \<^verbatim>\<open>currentValue\<close>. The result is
  the error that leaves the closure, if any, the state, the calls made and the log
  entries written.
\<close>

definition notify :: "watcher_state \<Rightarrow> nat \<Rightarrow> jsval \<Rightarrow> jsval \<Rightarrow> js_error option \<times> watcher_state \<times> invocation list \<times> log_entry list" where
  "notify m i prevValue currentValue =
     (case mReduxWatcher m of
        None \<Rightarrow> (None, m, [], [])
      | Some subs \<Rightarrow>
          if i < length subs then
            (let sub = subs ! i
             in if strict_equals currentValue (lastValue sub) then (None, m, [], [])
                else
                  (let r = (case mWatches m (sub_key sub) of
                              None \<Rightarrow> (Some (TypeError ''undefined is not iterable''), [], [])
                            | Some cbs \<Rightarrow> call_guarded cbs [prevValue, currentValue])
                   in (fst r,
                       m\<lparr> mReduxWatcher := Some (subs[i := sub\<lparr> lastValue := currentValue \<rparr>]) \<rparr>,
                       snd r)))
          else (None, m, [], []))"

section \<open>ExtensionManager.getModDB\<close>

text \<open>
  A \<^verbatim>\<open>modmeta.ModDB\<close> instance, by an identity and the game and API key it was constructed
  for, and the fields of the manager that \<^verbatim>\<open>getModDB\<close> uses. \<^verbatim>\<open>mModDBPromise\<close> is
  \<^verbatim>\<open>undefined\<close>, pending or resolved; once it is set it is never replaced.
\<close>

record ModDB =
  db_id :: nat
  gameId :: "string option"
  apiKey :: string

datatype promise_state = Pending | Resolved

record broker_state =
  mModDB :: "ModDB option"
  mModDBPromise :: "promise_state option"
  mModDBGame :: "string option"
  mModDBAPIKey :: "string option"

text \<open>
  A call of \<^verbatim>\<open>getModDB\<close> returns a promise chain
  \<^verbatim>\<open>init.then(first).then(second).finally(last)\<close>; the three callbacks run later, one
  at a time, and the callbacks of other calls can run in between. A request is one such
  call: the game and key it read from the store, whether it made \<^verbatim>\<open>mModDBPromise\<close> (then
  \<^verbatim>\<open>onDone\<close> is defined and \<^verbatim>\<open>init\<close> is a resolved promise; otherwise \<^verbatim>\<open>init\<close> is
  \<^verbatim>\<open>mModDBPromise\<close>), and how far its chain has come.
\<close>

datatype stage =
    AwaitFirst
  | Closing ModDB
  | AwaitSecond
  | AwaitFinally "thrown + ModDB"
  | Settled "thrown + ModDB"

record request =
  currentGame :: "string option"
  currentKey :: string
  onDone :: bool
  stage :: stage

text \<open>
  What happens to instances: \<^verbatim>\<open>close()\<close> is called on one, that call's promise resolves
  or is rejected, one is constructed.
\<close>

datatype db_event = CloseCalled ModDB | Closed ModDB | CloseRejected ModDB | Constructed ModDB

record broker_config =
  broker :: broker_state
  requests :: "request list"
  db_events :: "db_event list"
  db_log :: "log_entry list"

text \<open>The part of \<^verbatim>\<open>getModDB\<close> that runs when it is called.\<close>

definition getModDB :: "string option \<Rightarrow> string \<Rightarrow> broker_config \<Rightarrow> broker_config" where
  "getModDB game apikey c =
     (let made = (mModDBPromise (broker c) = None)
      in c\<lparr> broker := (if made then (broker c)\<lparr> mModDBPromise := Some Pending \<rparr> else broker c),
            requests := requests c @
              [\<lparr> currentGame = game, currentKey = apikey, onDone = made, stage = AwaitFirst \<rparr>] \<rparr>)"

definition set_stage :: "nat \<Rightarrow> stage \<Rightarrow> broker_config \<Rightarrow> broker_config" where
  "set_stage i st c = c\<lparr> requests := (requests c)[i := (requests c ! i)\<lparr> stage := st \<rparr>] \<rparr>"

text \<open>
  The first \<^verbatim>\<open>then\<close> callback of request \<open>i\<close>. It can run once \<^verbatim>\<open>init\<close> is resolved. When
  the instance is stale it calls \<^verbatim>\<open>close()\<close> on it and the chain waits for that promise.
\<close>

definition first_then :: "nat \<Rightarrow> broker_config \<Rightarrow> broker_config option" where
  "first_then i c =
     (if i < length (requests c) \<and> stage (requests c ! i) = AwaitFirst \<and>
         (onDone (requests c ! i) \<or> mModDBPromise (broker c) = Some Resolved)
      then
        (let r = requests c ! i; s = broker c
         in if mModDB s = None \<or> currentGame r \<noteq> mModDBGame s \<or> Some (currentKey r) \<noteq> mModDBAPIKey s
            then (case mModDB s of
                    Some db \<Rightarrow>
                      Some (set_stage i (Closing db) (c\<lparr> db_events := db_events c @ [CloseCalled db] \<rparr>))
                  | None \<Rightarrow> Some (set_stage i AwaitSecond c))
            else Some (set_stage i AwaitSecond c))
      else None)"

text \<open>
  The promise of \<^verbatim>\<open>close()\<close> that request \<open>i\<close> waits for settles. When it resolves, the
  callback \<^verbatim>\<open>() => this.mModDB = undefined\<close> runs; when it is rejected with \<open>t\<close>, the
  chain skips to \<^verbatim>\<open>finally\<close>.
\<close>

definition close_settles :: "nat \<Rightarrow> thrown option \<Rightarrow> broker_config \<Rightarrow> broker_config option" where
  "close_settles i outcome c =
     (if i < length (requests c) then
        (case stage (requests c ! i) of
           Closing db \<Rightarrow>
             (case outcome of
                None \<Rightarrow>
                  Some (set_stage i AwaitSecond
                          (c\<lparr> broker := (broker c)\<lparr> mModDB := None \<rparr>,
                             db_events := db_events c @ [Closed db] \<rparr>))
              | Some t \<Rightarrow>
                  Some (set_stage i (AwaitFinally (Inl t))
                          (c\<lparr> db_events := db_events c @ [CloseRejected db] \<rparr>)))
         | _ \<Rightarrow> None)
      else None)"

text \<open>
  The second \<^verbatim>\<open>then\<close> callback of request \<open>i\<close>; \<open>outcome\<close> is what the constructor
  throws, if it does, and \<open>fresh\<close> the identity of the instance it makes.
\<close>

definition second_then :: "nat \<Rightarrow> thrown option \<Rightarrow> nat \<Rightarrow> broker_config \<Rightarrow> broker_config option" where
  "second_then i outcome fresh c =
     (if i < length (requests c) \<and> stage (requests c ! i) = AwaitSecond then
        (let r = requests c ! i; s = broker c
         in case mModDB s of
              Some db \<Rightarrow> Some (set_stage i (AwaitFinally (Inr db)) c)
            | None \<Rightarrow>
                (case outcome of
                   Some t \<Rightarrow> Some (set_stage i (AwaitFinally (Inl t)) c)
                 | None \<Rightarrow>
                     (let db = \<lparr> db_id = fresh, gameId = currentGame r, apiKey = currentKey r \<rparr>
                      in Some (set_stage i (AwaitFinally (Inr db))
                                 (c\<lparr> broker := s\<lparr> mModDB := Some db, mModDBGame := currentGame r,
                                                  mModDBAPIKey := Some (currentKey r) \<rparr>,
                                    db_events := db_events c @ [Constructed db],
                                    db_log := db_log c @ [Log ''debug'' ''initialised'' []] \<rparr>)))))
      else None)"

text \<open>The \<^verbatim>\<open>finally\<close> callback of request \<open>i\<close>: the call that made \<^verbatim>\<open>mModDBPromise\<close> resolves it.\<close>

definition last_callback :: "nat \<Rightarrow> broker_config \<Rightarrow> broker_config option" where
  "last_callback i c =
     (if i < length (requests c) then
        (case stage (requests c ! i) of
           AwaitFinally res \<Rightarrow>
             Some (set_stage i (Settled res)
                     (if onDone (requests c ! i)
                      then c\<lparr> broker := (broker c)\<lparr> mModDBPromise := Some Resolved \<rparr> \<rparr>
                      else c))
         | _ \<Rightarrow> None)
      else None)"

text \<open>
  A run is a sequence of steps: \<^verbatim>\<open>getModDB\<close> is called with the game and key of the
  store, or a callback that is due runs. A step that is not due makes the run undefined.
\<close>

datatype step =
    Call "string option" string
  | First nat
  | CloseSettles nat "thrown option"
  | Second nat "thrown option" nat
  | Last nat

fun do_step :: "step \<Rightarrow> broker_config \<Rightarrow> broker_config option" where
  "do_step (Call game apikey) c = Some (getModDB game apikey c)"
| "do_step (First i) c = first_then i c"
| "do_step (CloseSettles i outcome) c = close_settles i outcome c"
| "do_step (Second i outcome fresh) c = second_then i outcome fresh c"
| "do_step (Last i) c = last_callback i c"

fun run :: "step list \<Rightarrow> broker_config \<Rightarrow> broker_config option" where
  "run [] c = Some c"
| "run (st # sts) c = (case do_step st c of None \<Rightarrow> None | Some c' \<Rightarrow> run sts c')"

definition idle :: "broker_state \<Rightarrow> broker_config" where
  "idle s = \<lparr> broker = s, requests = [], db_events = [], db_log = [] \<rparr>"

text \<open>
  The instances that are live after a sequence of events, from those live before it: a
  constructed instance is live until a \<^verbatim>\<open>close()\<close> of it has resolved.
\<close>

fun live_after :: "ModDB list \<Rightarrow> db_event list \<Rightarrow> ModDB list" where
  "live_after dbs [] = dbs"
| "live_after dbs (CloseCalled db # es) = live_after dbs es"
| "live_after dbs (Closed db # es) = live_after (removeAll db dbs) es"
| "live_after dbs (CloseRejected db # es) = live_after dbs es"
| "live_after dbs (Constructed db # es) = live_after (dbs @ [db]) es"

section \<open>Example inputs\<close>

text \<open>
  Behaviours of a function value: it returns, it throws an error, or it throws another
  value.
\<close>

definition returns :: "jsval list \<Rightarrow> thrown option" where
  "returns args = None"

definition throws :: "string \<Rightarrow> jsval list \<Rightarrow> thrown option" where
  "throws m args = Some (Err (Error m))"

definition throws_value :: "jsval \<Rightarrow> jsval list \<Rightarrow> thrown option" where
  "throws_value v args = Some (Val v)"

definition a_call :: "string \<Rightarrow> string \<Rightarrow> bool \<Rightarrow> IInitCall" where
  "a_call ext k opt =
     \<lparr> extension = Some ext, extensionPath = Some (''/plugins/'' @ ext), key = k,
       arguments = [JStr ''arg''], optional = opt \<rparr>"

text \<open>
  A handler after registration: \<^verbatim>\<open>legacy-plugin\<close> has called a capability that exists and
  one that does not, \<^verbatim>\<open>good-plugin\<close> one that exists and, as optional, one that does not.
\<close>

definition mixed_handler :: ContextProxyHandler where
  "mixed_handler =
     \<lparr> mContext = api_context,
       mInitCalls = [a_call ''legacy-plugin'' ''registerAction'' False,
                     a_call ''good-plugin'' ''registerAction'' False,
                     a_call ''legacy-plugin'' ''registerWidget'' False,
                     a_call ''good-plugin'' ''registerGadget'' True],
       mApiAdditions = [],
       mCurrentExtension = Some ''good-plugin'',
       mCurrentPath = Some ''/plugins/good-plugin'' \<rparr>"

text \<open>
  Extensions: \<^verbatim>\<open>user\<close> calls a capability that \<^verbatim>\<open>adder\<close> contributes; \<^verbatim>\<open>broken\<close> throws
  between two calls; \<^verbatim>\<open>late\<close> makes one call.
\<close>

definition user_ext :: IRegisteredExtension where
  "user_ext =
     \<lparr> name = ''user'', path = ''/plugins/user'',
       initFunc = [Invoke ''registerAction'' [JStr ''menu''], Invoke ''registerWidget'' [JNum 1]] \<rparr>"

definition adder_ext :: IRegisteredExtension where
  "adder_ext =
     \<lparr> name = ''adder'', path = ''/plugins/adder'',
       initFunc = [Assign ''registerWidget'' (Callback 1 returns)] \<rparr>"

definition broken_ext :: IRegisteredExtension where
  "broken_ext =
     \<lparr> name = ''broken'', path = ''/plugins/broken'',
       initFunc = [Invoke ''registerAction'' [JStr ''first''], Throw (Err (Error ''boom'')),
                   Invoke ''registerDialog'' [JStr ''never'']] \<rparr>"

definition late_ext :: IRegisteredExtension where
  "late_ext =
     \<lparr> name = ''late'', path = ''/plugins/late'',
       initFunc = [Invoke ''registerDialog'' [JStr ''about'']] \<rparr>"

definition widget_call :: IInitCall where
  "widget_call =
     \<lparr> extension = Some ''user'', extensionPath = Some ''/plugins/user'', key = ''registerWidget'',
       arguments = [JNum 1], optional = False \<rparr>"

text \<open>
  A manager with a watcher and no watch yet, and the same after two calls of
  \<^verbatim>\<open>stateChangeHandler\<close> on one path, the first with a callback that throws.
\<close>

definition empty_watcher :: watcher_state where
  "empty_watcher = \<lparr> mWatches = Map.empty, mReduxWatcher = Some [] \<rparr>"

definition language_path :: "string list" where
  "language_path = [''settings'', ''interface'', ''language'']"

definition watched_twice :: watcher_state where
  "watched_twice =
     snd (stateChangeHandler (snd (stateChangeHandler empty_watcher language_path (Callback 1 (throws ''bad''))))
            language_path (Callback 2 returns))"

text \<open>A manager holding an instance made for game A, with the promise long resolved.\<close>

definition db_A :: ModDB where
  "db_A = \<lparr> db_id = 0, gameId = Some ''A'', apiKey = ''k1'' \<rparr>"

definition broker_A :: broker_state where
  "broker_A =
     \<lparr> mModDB = Some db_A, mModDBPromise = Some Resolved, mModDBGame = Some ''A'',
       mModDBAPIKey = Some ''k1'' \<rparr>"

definition db_B :: ModDB where
  "db_B = \<lparr> db_id = 1, gameId = Some ''B'', apiKey = ''k1'' \<rparr>"

text \<open>
  More extensions: \<^verbatim>\<open>nuller\<close> makes a call and then throws \<^verbatim>\<open>null\<close>; \<^verbatim>\<open>faulty\<close>
  contributes a capability whose callback throws; \<^verbatim>\<open>second\<close> calls that capability, as
  \<^verbatim>\<open>user\<close> does.
\<close>

definition nuller_ext :: IRegisteredExtension where
  "nuller_ext =
     \<lparr> name = ''nuller'', path = ''/plugins/nuller'',
       initFunc = [Invoke ''registerAction'' [JStr ''first''], Throw (Val JNull)] \<rparr>"

definition faulty_ext :: IRegisteredExtension where
  "faulty_ext =
     \<lparr> name = ''faulty'', path = ''/plugins/faulty'',
       initFunc = [Assign ''registerWidget'' (Callback 3 (throws ''bad''))] \<rparr>"

definition second_ext :: IRegisteredExtension where
  "second_ext =
     \<lparr> name = ''second'', path = ''/plugins/second'',
       initFunc = [Invoke ''registerWidget'' [JNum 2]] \<rparr>"

definition second_widget_call :: IInitCall where
  "second_widget_call =
     \<lparr> extension = Some ''second'', extensionPath = Some ''/plugins/second'', key = ''registerWidget'',
       arguments = [JNum 2], optional = False \<rparr>"

text \<open>
  The handler that \<^verbatim>\<open>initExtensions\<close> leaves for \<^verbatim>\<open>faulty\<close>, \<^verbatim>\<open>user\<close> and \<^verbatim>\<open>second\<close>:
  one addition, whose callback throws, and two calls of its key.
\<close>

definition faulty_handler :: ContextProxyHandler where
  "faulty_handler =
     \<lparr> mContext = api_context,
       mInitCalls = [\<lparr> extension = Some ''user'', extensionPath = Some ''/plugins/user'',
                       key = ''registerAction'', arguments = [JStr ''menu''], optional = False \<rparr>,
                     widget_call, second_widget_call],
       mApiAdditions = [\<lparr> api_key = ''registerWidget'', callback = Callback 3 (throws ''bad'') \<rparr>],
       mCurrentExtension = Some ''second'',
       mCurrentPath = Some ''/plugins/second'' \<rparr>"

text \<open>
  Watchers: two callbacks on one path where the first throws \<^verbatim>\<open>null\<close>, and a manager
  set up by \<^verbatim>\<open>setupApiMain\<close>, which has no \<^verbatim>\<open>mReduxWatcher\<close>.
\<close>

definition nulling_watched :: watcher_state where
  "nulling_watched =
     snd (stateChangeHandler (snd (stateChangeHandler empty_watcher language_path
                                     (Callback 1 (throws_value JNull))))
            language_path (Callback 2 returns))"

definition main_process_watcher :: watcher_state where
  "main_process_watcher = \<lparr> mWatches = Map.empty, mReduxWatcher = None \<rparr>"

text \<open>
  Two calls of \<^verbatim>\<open>getModDB\<close> made one after the other once the active game is B, on a
  manager that holds an instance for game A. Both first callbacks run before either
  \<^verbatim>\<open>close()\<close> resolves; the \<^verbatim>\<open>close()\<close> of the first call resolves and its second
  callback runs before the \<^verbatim>\<open>close()\<close> of the second call resolves.
\<close>

definition db_B2 :: ModDB where
  "db_B2 = \<lparr> db_id = 2, gameId = Some ''B'', apiKey = ''k1'' \<rparr>"

definition overlapping_calls :: "step list" where
  "overlapping_calls =
     [Call (Some ''B'') ''k1'', Call (Some ''B'') ''k1'', First 0, First 1,
      CloseSettles 0 None, Second 0 None 1, CloseSettles 1 None, Second 1 None 2,
      Last 0, Last 1]"

section \<open>Facts about insertion-ordered sets and the incompatible set\<close>

lemma set_fold_set_add: "set (fold set_add xs acc) = set xs \<union> set acc"
  by (induction xs arbitrary: acc) (auto simp: set_add_def)

lemma set_incompatibleExtensions:
  "set (incompatibleExtensions full calls) =
     extension ` {call \<in> set calls. \<not> optional call \<and> key call \<notin> set full}"
  by (simp add: incompatibleExtensions_def unsupported_calls_def set_fold_set_add)

lemma in_incompatibleExtensions:
  "e \<in> set (incompatibleExtensions full calls) \<longleftrightarrow>
     (\<exists>bad \<in> set calls. extension bad = e \<and> \<not> optional bad \<and> key bad \<notin> set full)"
  by (auto simp: set_incompatibleExtensions)

lemma mInitCalls_unloadIncompatible:
  "mInitCalls (fst (unloadIncompatible remote furtherAPIs h)) =
     filter (\<lambda>call. extension call \<notin> set (incompatibleExtensions (fullAPI furtherAPIs h) (mInitCalls h)))
       (mInitCalls h)"
proof (cases "incompatibleExtensions (fullAPI furtherAPIs h) (mInitCalls h)")
  case Nil
  then show ?thesis by (simp add: unloadIncompatible_def Let_def)
next
  case (Cons e es)
  then show ?thesis by (simp add: unloadIncompatible_def Let_def)
qed

lemma set_fullAPI:
  "set (fullAPI furtherAPIs h) = set furtherAPIs \<union> set staticAPIs \<union> api_key ` set (mApiAdditions h)"
  by (auto simp: fullAPI_def)

section \<open>The membership trap\<close>

text \<open>
  C10. For every property key the \<^verbatim>\<open>has\<close> trap answers true, whatever the handler
  holds: so also for a key that is no static API, no addition and no member of the
  context.
\<close>

theorem has_trap_always_true: "has_trap h k = True"
  by (simp add: has_trap_def)

section \<open>Compatibility filtering\<close>

text \<open>
  C1. Pruning is all or nothing. The full capability set is the UI APIs passed in, the
  static APIs and the keys of the additions. An extension with one recorded call that
  is not optional and names a capability outside that set loses every recorded call; the
  calls of each extension with no such call are all kept; and the log that remains is the
  old one with the calls of the disqualified extensions taken out, in the old order.
\<close>

theorem unloadIncompatible_all_or_nothing:
  "(\<forall>bad \<in> set (mInitCalls h).
       \<not> optional bad \<and> key bad \<notin> set (fullAPI furtherAPIs h) \<longrightarrow>
       filter (\<lambda>call. extension call = extension bad)
         (mInitCalls (fst (unloadIncompatible remote furtherAPIs h))) = [])
   \<and> (\<forall>e. (\<forall>call \<in> set (mInitCalls h).
              extension call = e \<longrightarrow> optional call \<or> key call \<in> set (fullAPI furtherAPIs h)) \<longrightarrow>
       filter (\<lambda>call. extension call = e) (mInitCalls (fst (unloadIncompatible remote furtherAPIs h))) =
       filter (\<lambda>call. extension call = e) (mInitCalls h))
   \<and> mInitCalls (fst (unloadIncompatible remote furtherAPIs h)) =
       filter (\<lambda>call. \<not> (\<exists>bad \<in> set (mInitCalls h).
                  extension bad = extension call \<and> \<not> optional bad \<and>
                  key bad \<notin> set (fullAPI furtherAPIs h)))
         (mInitCalls h)
   \<and> set (fullAPI furtherAPIs h) =
       set furtherAPIs \<union> set staticAPIs \<union> api_key ` set (mApiAdditions h)"
proof -
  let ?full = "set (fullAPI furtherAPIs h)"
  let ?new = "mInitCalls (fst (unloadIncompatible remote furtherAPIs h))"
  have eq: "?new =
           filter (\<lambda>call. \<not> (\<exists>bad \<in> set (mInitCalls h).
                      extension bad = extension call \<and> \<not> optional bad \<and> key bad \<notin> ?full))
             (mInitCalls h)"
    unfolding mInitCalls_unloadIncompatible in_incompatibleExtensions ..
  have gone: "\<forall>bad \<in> set (mInitCalls h). \<not> optional bad \<and> key bad \<notin> ?full \<longrightarrow>
            filter (\<lambda>call. extension call = extension bad) ?new = []"
    unfolding eq by (auto simp: filter_empty_conv)
  have kept: "\<forall>e. (\<forall>call \<in> set (mInitCalls h). extension call = e \<longrightarrow> optional call \<or> key call \<in> ?full) \<longrightarrow>
            filter (\<lambda>call. extension call = e) ?new =
            filter (\<lambda>call. extension call = e) (mInitCalls h)"
    unfolding eq by (auto intro!: filter_cong)
  from gone kept eq set_fullAPI show ?thesis by blast
qed

theorem unloadIncompatible_all_or_nothing_witness:
  "a_call ''legacy-plugin'' ''registerWidget'' False \<in> set (mInitCalls mixed_handler)
   \<and> \<not> optional (a_call ''legacy-plugin'' ''registerWidget'' False)
   \<and> key (a_call ''legacy-plugin'' ''registerWidget'' False) \<notin> set (fullAPI [] mixed_handler)
   \<and> filter (\<lambda>call. extension call = Some ''legacy-plugin'')
        (mInitCalls (fst (unloadIncompatible False [] mixed_handler))) = []
   \<and> filter (\<lambda>call. extension call = Some ''good-plugin'' \<and> \<not> optional call \<and>
                 key call \<notin> set (fullAPI [] mixed_handler)) (mInitCalls mixed_handler) = []
   \<and> filter (\<lambda>call. extension call = Some ''good-plugin'')
        (mInitCalls (fst (unloadIncompatible False [] mixed_handler))) =
      [a_call ''good-plugin'' ''registerAction'' False, a_call ''good-plugin'' ''registerGadget'' True]"
proof -
  let ?bad = "a_call ''legacy-plugin'' ''registerWidget'' False"
  have mem: "?bad \<in> set (mInitCalls mixed_handler)"
    by (simp add: mixed_handler_def)
  have bad: "\<not> optional ?bad \<and> key ?bad \<notin> set (fullAPI [] mixed_handler)"
    by (simp add: a_call_def fullAPI_def staticAPIs_def mixed_handler_def)
  have ext: "extension ?bad = Some ''legacy-plugin''"
    by (simp add: a_call_def)
  have good: "\<forall>call \<in> set (mInitCalls mixed_handler).
         extension call = Some ''good-plugin'' \<longrightarrow>
         optional call \<or> key call \<in> set (fullAPI [] mixed_handler)"
    by (simp add: a_call_def fullAPI_def staticAPIs_def mixed_handler_def)
  have old: "filter (\<lambda>call. extension call = Some ''good-plugin'') (mInitCalls mixed_handler) =
      [a_call ''good-plugin'' ''registerAction'' False, a_call ''good-plugin'' ''registerGadget'' True]"
    by (simp add: a_call_def mixed_handler_def)
  note inst = unloadIncompatible_all_or_nothing [of mixed_handler "[]" False]
  from inst have A: "\<forall>bad \<in> set (mInitCalls mixed_handler).
       \<not> optional bad \<and> key bad \<notin> set (fullAPI [] mixed_handler) \<longrightarrow>
       filter (\<lambda>call. extension call = extension bad)
         (mInitCalls (fst (unloadIncompatible False [] mixed_handler))) = []"
    by (rule conjunct1)
  from inst have B: "\<forall>e. (\<forall>call \<in> set (mInitCalls mixed_handler).
              extension call = e \<longrightarrow> optional call \<or> key call \<in> set (fullAPI [] mixed_handler)) \<longrightarrow>
       filter (\<lambda>call. extension call = e) (mInitCalls (fst (unloadIncompatible False [] mixed_handler))) =
       filter (\<lambda>call. extension call = e) (mInitCalls mixed_handler)"
    by (rule conjunct2 [THEN conjunct1])
  from A mem bad have "filter (\<lambda>call. extension call = extension ?bad)
         (mInitCalls (fst (unloadIncompatible False [] mixed_handler))) = []"
    by blast
  then
  have gone: "filter (\<lambda>call. extension call = Some ''legacy-plugin'')
        (mInitCalls (fst (unloadIncompatible False [] mixed_handler))) = []"
    by (simp only: ext)
  from B good have "filter (\<lambda>call. extension call = Some ''good-plugin'')
        (mInitCalls (fst (unloadIncompatible False [] mixed_handler))) =
      filter (\<lambda>call. extension call = Some ''good-plugin'') (mInitCalls mixed_handler)"
    by blast
  then
  have kept: "filter (\<lambda>call. extension call = Some ''good-plugin'')
        (mInitCalls (fst (unloadIncompatible False [] mixed_handler))) =
      [a_call ''good-plugin'' ''registerAction'' False, a_call ''good-plugin'' ''registerGadget'' True]"
    by (simp only: old)
  have none: "filter (\<lambda>call. extension call = Some ''good-plugin'' \<and> \<not> optional call \<and>
                 key call \<notin> set (fullAPI [] mixed_handler)) (mInitCalls mixed_handler) = []"
    by (simp add: a_call_def fullAPI_def staticAPIs_def mixed_handler_def)
  from mem bad gone none kept show ?thesis by blast
qed

section \<open>The optional sub-surface\<close>

text \<open>
  C3. A call made through the \<^verbatim>\<open>optional\<close> sub-surface is appended to the log with
  \<open>optional = True\<close>, under the current extension; the recorder context hands out that
  sub-surface for the key \<^verbatim>\<open>optional\<close> when the wrapped context has no member of that
  name. Optional calls play no part in the incompatible set: it is the same with them
  filtered out, and an extension whose calls to capabilities outside the full set are all
  optional is not in it.
\<close>

theorem optional_calls_never_disqualify:
  "mInitCalls (mOptional_call h k args) =
     mInitCalls h @ [\<lparr> extension = mCurrentExtension h, extensionPath = mCurrentPath h,
                       key = k, arguments = args, optional = True \<rparr>]
   \<and> (mContext h ''optional'' = None \<longrightarrow>
        proxy_invoke_optional h k args = Inr (mOptional_call h k args))
   \<and> incompatibleExtensions full calls =
       incompatibleExtensions full (filter (\<lambda>call. \<not> optional call) calls)
   \<and> ((\<forall>call \<in> set calls. extension call = e \<and> key call \<notin> set full \<longrightarrow> optional call) \<longrightarrow>
        e \<notin> set (incompatibleExtensions full calls))"
proof -
  have rec: "mInitCalls (mOptional_call h k args) =
     mInitCalls h @ [\<lparr> extension = mCurrentExtension h, extensionPath = mCurrentPath h,
                       key = k, arguments = args, optional = True \<rparr>]"
    by (simp add: mOptional_call_def)
  have surface: "mContext h ''optional'' = None \<longrightarrow>
        proxy_invoke_optional h k args = Inr (mOptional_call h k args)"
    by (simp add: proxy_invoke_optional_def get_trap_def)
  have "unsupported_calls full (filter (\<lambda>call. \<not> optional call) calls) = unsupported_calls full calls"
    by (auto simp: unsupported_calls_def intro: filter_cong)
  then have same: "incompatibleExtensions full calls =
       incompatibleExtensions full (filter (\<lambda>call. \<not> optional call) calls)"
    by (simp add: incompatibleExtensions_def)
  have out: "(\<forall>call \<in> set calls. extension call = e \<and> key call \<notin> set full \<longrightarrow> optional call) \<longrightarrow>
        e \<notin> set (incompatibleExtensions full calls)"
    by (auto simp: in_incompatibleExtensions)
  from rec surface same out show ?thesis by blast
qed

theorem optional_calls_never_disqualify_witness:
  "mContext mixed_handler ''optional'' = None
   \<and> proxy_invoke_optional mixed_handler ''registerGadget'' [] =
       Inr (mOptional_call mixed_handler ''registerGadget'' [])
   \<and> a_call ''good-plugin'' ''registerGadget'' True \<in> set (mInitCalls mixed_handler)
   \<and> key (a_call ''good-plugin'' ''registerGadget'' True) \<notin> set (fullAPI [] mixed_handler)
   \<and> filter (\<lambda>call. extension call = Some ''good-plugin'' \<and> \<not> optional call \<and>
                 key call \<notin> set (fullAPI [] mixed_handler)) (mInitCalls mixed_handler) = []
   \<and> Some ''good-plugin'' \<notin> set (incompatibleExtensions (fullAPI [] mixed_handler) (mInitCalls mixed_handler))"
proof -
  have ctx: "mContext mixed_handler ''optional'' = None"
    by (simp add: mixed_handler_def api_context_def Object_prototype_def)
  have mem: "a_call ''good-plugin'' ''registerGadget'' True \<in> set (mInitCalls mixed_handler)"
    by (simp add: mixed_handler_def)
  have absent: "key (a_call ''good-plugin'' ''registerGadget'' True) \<notin> set (fullAPI [] mixed_handler)"
    by (simp add: a_call_def fullAPI_def staticAPIs_def mixed_handler_def)
  have opt: "\<forall>call \<in> set (mInitCalls mixed_handler).
         extension call = Some ''good-plugin'' \<and> key call \<notin> set (fullAPI [] mixed_handler) \<longrightarrow>
         optional call"
    by (simp add: a_call_def fullAPI_def staticAPIs_def mixed_handler_def)
  note inst = optional_calls_never_disqualify
    [of mixed_handler "''registerGadget''" "[]" "fullAPI [] mixed_handler" "mInitCalls mixed_handler"
        "Some ''good-plugin''"]
  from inst ctx have surface: "proxy_invoke_optional mixed_handler ''registerGadget'' [] =
       Inr (mOptional_call mixed_handler ''registerGadget'' [])"
    by blast
  from inst opt have out: "Some ''good-plugin'' \<notin>
      set (incompatibleExtensions (fullAPI [] mixed_handler) (mInitCalls mixed_handler))"
    by blast
  have none: "filter (\<lambda>call. extension call = Some ''good-plugin'' \<and> \<not> optional call \<and>
                 key call \<notin> set (fullAPI [] mixed_handler)) (mInitCalls mixed_handler) = []"
    by (simp add: a_call_def fullAPI_def staticAPIs_def mixed_handler_def)
  from ctx surface mem absent none out show ?thesis by blast
qed

section \<open>The call recorder\<close>

text \<open>
  C4, as amended. For every key that is no member of the wrapped context and is not
  \<^verbatim>\<open>optional\<close>, and for every argument list, invoking the key on the proxy succeeds and
  appends one entry to the log: the name and path last given to \<^verbatim>\<open>setExtension\<close>, the
  key, the arguments and \<open>optional = False\<close>. Whether the key is a capability plays no
  part.
\<close>

theorem proxy_invoke_records:
  assumes "mContext h k = None" and "k \<noteq> ''optional''"
  shows "proxy_invoke (setExtension h ext extPath) k args =
           Inr ((setExtension h ext extPath)\<lparr> mInitCalls := mInitCalls h @
             [\<lparr> extension = Some ext, extensionPath = Some extPath, key = k,
                arguments = args, optional = False \<rparr>] \<rparr>)"
  using assms
  by (simp add: proxy_invoke_def get_trap_def setExtension_def recorder_call_def)

theorem proxy_invoke_records_witness:
  "api_context ''registerWidget'' = None \<and> ''registerWidget'' \<noteq> ''optional''
   \<and> ''registerWidget'' \<notin> set staticAPIs
   \<and> proxy_invoke (setExtension (constructor api_context) ''user'' ''/plugins/user'')
        ''registerWidget'' [JNum 1, JStr ''two''] =
      Inr ((setExtension (constructor api_context) ''user'' ''/plugins/user'')
             \<lparr> mInitCalls := [\<lparr> extension = Some ''user'', extensionPath = Some ''/plugins/user'',
                                key = ''registerWidget'', arguments = [JNum 1, JStr ''two''],
                                optional = False \<rparr>] \<rparr>)"
proof -
  have ctx: "mContext (constructor api_context) ''registerWidget'' = None"
    by (simp add: constructor_def api_context_def Object_prototype_def)
  have ne: "''registerWidget'' \<noteq> ''optional''"
    by simp
  have static: "''registerWidget'' \<notin> set staticAPIs"
    by (simp add: staticAPIs_def)
  from proxy_invoke_records [OF ctx ne, of "''user''" "''/plugins/user''" "[JNum 1, JStr ''two'']"]
  have "proxy_invoke (setExtension (constructor api_context) ''user'' ''/plugins/user'')
        ''registerWidget'' [JNum 1, JStr ''two''] =
      Inr ((setExtension (constructor api_context) ''user'' ''/plugins/user'')
             \<lparr> mInitCalls := [\<lparr> extension = Some ''user'', extensionPath = Some ''/plugins/user'',
                                key = ''registerWidget'', arguments = [JNum 1, JStr ''two''],
                                optional = False \<rparr>] \<rparr>)"
    by (simp add: constructor_def)
  with ctx ne static show ?thesis by (simp add: constructor_def)
qed

text \<open>
  C4 as written fails: on the proxy that \<^verbatim>\<open>initExtensions\<close> builds, the keys \<^verbatim>\<open>api\<close> and
  \<^verbatim>\<open>optional\<close> give an object, not a recording closure, so invoking them throws and the
  log stays as it was.
\<close>

theorem proxy_invoke_counterexample:
  "proxy_invoke (setExtension (constructor api_context) ''user'' ''/plugins/user'') ''api'' [] =
     Inl (TypeError ''api is not a function'')
   \<and> proxy_invoke (setExtension (constructor api_context) ''user'' ''/plugins/user'') ''optional'' [] =
     Inl (TypeError ''optional is not a function'')"
  by (simp add: proxy_invoke_def get_trap_def setExtension_def constructor_def api_context_def
      Object_prototype_def)

section \<open>Capability additions\<close>

text \<open>
  C5, as amended. An assignment to a key that is already in the full capability set is
  accepted like any other: the trap reports success, the addition is stored at the end
  of the additions, the call log is untouched, nothing is logged and no error is raised,
  so the registration function goes on. The full capability set has the same members as
  before.
\<close>

theorem set_trap_accepts_duplicates:
  assumes "k \<in> set (fullAPI furtherAPIs h)"
  shows "snd (set_trap h k v) = True
     \<and> mApiAdditions (fst (set_trap h k v)) = mApiAdditions h @ [\<lparr> api_key = k, callback = v \<rparr>]
     \<and> mInitCalls (fst (set_trap h k v)) = mInitCalls h
     \<and> set (fullAPI furtherAPIs (fst (set_trap h k v))) = set (fullAPI furtherAPIs h)
     \<and> run_initFunc (Assign k v # ops) h = run_initFunc ops (fst (set_trap h k v))"
  using assms by (auto simp: set_trap_def fullAPI_def)

theorem set_trap_accepts_duplicates_witness:
  "''registerAction'' \<in> set (fullAPI [] (constructor api_context))
   \<and> snd (set_trap (constructor api_context) ''registerAction'' (Callback 7 returns)) = True
   \<and> mApiAdditions (fst (set_trap (constructor api_context) ''registerAction'' (Callback 7 returns))) =
       [\<lparr> api_key = ''registerAction'', callback = Callback 7 returns \<rparr>]"
proof -
  have mem: "''registerAction'' \<in> set (fullAPI [] (constructor api_context))"
    by (simp add: fullAPI_def staticAPIs_def)
  from set_trap_accepts_duplicates [OF mem, of "Callback 7 returns" "[]"] mem
  show ?thesis by (simp add: constructor_def)
qed

text \<open>
  C5 as written fails: a capability of the static set, and one added a moment before,
  are both stored again, and the trap reports success each time.
\<close>

theorem set_trap_counterexample:
  "''registerAction'' \<in> set staticAPIs
   \<and> set_trap (constructor api_context) ''registerAction'' (Callback 7 returns) =
       ((constructor api_context)
          \<lparr> mApiAdditions := [\<lparr> api_key = ''registerAction'', callback = Callback 7 returns \<rparr>] \<rparr>, True)
   \<and> set_trap (fst (set_trap (constructor api_context) ''registerAction'' (Callback 7 returns)))
        ''registerAction'' (Callback 8 returns) =
       ((constructor api_context)
          \<lparr> mApiAdditions := [\<lparr> api_key = ''registerAction'', callback = Callback 7 returns \<rparr>,
                              \<lparr> api_key = ''registerAction'', callback = Callback 8 returns \<rparr>] \<rparr>, True)"
  by (simp add: set_trap_def constructor_def staticAPIs_def)

section \<open>The registration pass\<close>

lemma run_op_shift:
  "run_op op (shift cs as g) = map_sum id (shift cs as) (run_op op g)"
  by (cases op)
     (auto simp: shift_def proxy_invoke_def proxy_invoke_optional_def get_trap_def recorder_call_def
        mOptional_call_def set_trap_def split: option.splits ctx_value.splits)

lemma run_initFunc_shift:
  "run_initFunc ops (shift cs as g) = apsnd (shift cs as) (run_initFunc ops g)"
proof (induction ops arbitrary: g)
  case Nil
  show ?case by simp
next
  case (Cons op ops)
  show ?case
  proof (cases "run_op op g")
    case (Inl err)
    then show ?thesis by (simp add: run_op_shift)
  next
    case (Inr g')
    then show ?thesis by (simp add: run_op_shift Cons.IH)
  qed
qed

lemma run_op_frame:
  "run_op op h = Inr h' \<Longrightarrow>
     mContext h' = mContext h \<and> mCurrentExtension h' = mCurrentExtension h \<and> mCurrentPath h' = mCurrentPath h"
  by (cases op)
     (auto simp: proxy_invoke_def proxy_invoke_optional_def get_trap_def recorder_call_def
        mOptional_call_def set_trap_def split: option.splits ctx_value.splits if_splits get_result.splits)

lemma run_initFunc_frame:
  "mContext (snd (run_initFunc ops h)) = mContext h
   \<and> mCurrentExtension (snd (run_initFunc ops h)) = mCurrentExtension h
   \<and> mCurrentPath (snd (run_initFunc ops h)) = mCurrentPath h"
proof (induction ops arbitrary: h)
  case Nil
  show ?case by simp
next
  case (Cons op ops)
  show ?case
  proof (cases "run_op op h")
    case (Inl err)
    then show ?thesis by simp
  next
    case (Inr h')
    with Cons.IH [of h'] run_op_frame [OF Inr] show ?thesis by simp
  qed
qed

lemma setExtension_shift:
  "setExtension h n p = shift (mInitCalls h) (mApiAdditions h) (setExtension (constructor (mContext h)) n p)"
  by (simp add: setExtension_def shift_def constructor_def)

lemma run_initFunc_setExtension:
  assumes "alone (mContext h) ext = (e, g)"
  shows "run_initFunc (initFunc ext) (setExtension h (name ext) (path ext)) =
           (e, shift (mInitCalls h) (mApiAdditions h) g)"
proof -
  have "run_initFunc (initFunc ext) (setExtension h (name ext) (path ext)) =
          apsnd (shift (mInitCalls h) (mApiAdditions h)) (alone (mContext h) ext)"
    unfolding alone_def by (subst setExtension_shift) (rule run_initFunc_shift)
  with assms show ?thesis by simp
qed

lemma init_extension_alone:
  "init_extension remote ext (h, lg) =
     (case fst (alone (mContext h) ext) of
        None \<Rightarrow>
          (None, shift (mInitCalls h) (mApiAdditions h) (snd (alone (mContext h) ext)),
           lg @ (if remote then [Log ''info'' ''init extension'' [(''name'', JStr (name ext))]] else []))
      | Some t \<Rightarrow>
          (case read_message t of
             Inl err \<Rightarrow>
               (Some err, shift (mInitCalls h) (mApiAdditions h) (snd (alone (mContext h) ext)),
                lg @ (if remote then [Log ''info'' ''init extension'' [(''name'', JStr (name ext))]] else []))
           | Inr m \<Rightarrow>
               (None, shift (mInitCalls h) (mApiAdditions h) (snd (alone (mContext h) ext)),
                lg @ (if remote then [Log ''info'' ''init extension'' [(''name'', JStr (name ext))]] else [])
                   @ [Log ''warn'' ''couldn't initialize extension''
                        [(''name'', JStr (name ext)), (''err'', m)]])))"
proof -
  obtain e g where eg: "alone (mContext h) ext = (e, g)"
    by (cases "alone (mContext h) ext")
  show ?thesis
    by (cases e)
       (simp_all add: init_extension_def Let_def run_initFunc_setExtension [OF eg] eg split: sum.splits)
qed

lemma init_extension_handler:
  "fst (snd (init_extension remote ext (h, lg))) =
     shift (mInitCalls h) (mApiAdditions h) (snd (alone (mContext h) ext))"
  by (simp add: init_extension_alone split: option.splits sum.splits)

lemma init_extension_log_grows:
  "set lg \<subseteq> set (snd (snd (init_extension remote ext (h, lg))))"
  by (auto simp: init_extension_alone split: option.splits sum.splits)

lemma mContext_alone: "mContext (snd (alone ctx ext)) = ctx"
  by (simp add: alone_def run_initFunc_frame setExtension_def constructor_def)

lemma register_all_fields:
  assumes "fst (register_all remote exts (h, lg)) = None"
  shows "mContext (fst (snd (register_all remote exts (h, lg)))) = mContext h
   \<and> mInitCalls (fst (snd (register_all remote exts (h, lg)))) =
       mInitCalls h @ concat (map (recorded (mContext h)) exts)
   \<and> mApiAdditions (fst (snd (register_all remote exts (h, lg)))) =
       mApiAdditions h @ concat (map (contributed (mContext h)) exts)"
  using assms
proof (induction exts arbitrary: h lg)
  case Nil
  show ?case by simp
next
  case (Cons ext exts)
  let ?h = "shift (mInitCalls h) (mApiAdditions h) (snd (alone (mContext h) ext))"
  obtain r lg' where step: "init_extension remote ext (h, lg) = (r, ?h, lg')"
    using init_extension_handler [of remote ext h lg]
    by (cases "init_extension remote ext (h, lg)") auto
  from Cons.prems step have r: "r = None"
    by (cases r) simp_all
  have ctx: "mContext ?h = mContext h"
    by (simp add: shift_def mContext_alone)
  have next_step: "register_all remote (ext # exts) (h, lg) = register_all remote exts (?h, lg')"
    by (simp add: step r)
  with Cons.prems have "fst (register_all remote exts (?h, lg')) = None"
    by simp
  from Cons.IH [OF this] ctx next_step show ?case
    by (simp add: shift_def recorded_def contributed_def)
qed

lemma run_op_tagged:
  assumes "run_op op h = Inr h'"
    and "\<forall>c \<in> set (mInitCalls h). extension c = mCurrentExtension h \<and> extensionPath c = mCurrentPath h"
  shows "\<forall>c \<in> set (mInitCalls h'). extension c = mCurrentExtension h \<and> extensionPath c = mCurrentPath h"
  using assms
  by (cases op)
     (auto simp: proxy_invoke_def proxy_invoke_optional_def get_trap_def recorder_call_def
        mOptional_call_def set_trap_def split: option.splits ctx_value.splits if_splits get_result.splits)

lemma run_initFunc_tagged:
  assumes "\<forall>c \<in> set (mInitCalls h). extension c = mCurrentExtension h \<and> extensionPath c = mCurrentPath h"
  shows "\<forall>c \<in> set (mInitCalls (snd (run_initFunc ops h))).
           extension c = mCurrentExtension h \<and> extensionPath c = mCurrentPath h"
  using assms
proof (induction ops arbitrary: h)
  case Nil
  then show ?case by simp
next
  case (Cons op ops)
  show ?case
  proof (cases "run_op op h")
    case (Inl err)
    with Cons.prems show ?thesis by simp
  next
    case (Inr h')
    from run_op_frame [OF Inr] run_op_tagged [OF Inr Cons.prems]
    have "\<forall>c \<in> set (mInitCalls h'). extension c = mCurrentExtension h' \<and> extensionPath c = mCurrentPath h'"
      by simp
    from Cons.IH [OF this] run_op_frame [OF Inr] Inr show ?thesis by simp
  qed
qed

lemma recorded_tagged:
  assumes "call \<in> set (recorded ctx ext)"
  shows "extension call = Some (name ext) \<and> extensionPath call = Some (path ext)"
proof -
  let ?h = "setExtension (constructor ctx) (name ext) (path ext)"
  have "\<forall>c \<in> set (mInitCalls ?h). extension c = mCurrentExtension ?h \<and> extensionPath c = mCurrentPath ?h"
    by (simp add: setExtension_def constructor_def)
  from run_initFunc_tagged [OF this, of "initFunc ext"] assms show ?thesis
    by (simp add: recorded_def alone_def setExtension_def)
qed

lemma run_initFunc_append:
  "run_initFunc ops1 h = (None, h1) \<Longrightarrow> run_initFunc (ops1 @ ops2) h = run_initFunc ops2 h1"
  by (induction ops1 arbitrary: h) (auto split: sum.splits)

lemma register_all_prefix:
  "fst (register_all remote (xs @ ys) s) = None \<Longrightarrow> fst (register_all remote xs s) = None"
proof (induction xs arbitrary: s)
  case Nil
  show ?case by simp
next
  case (Cons x xs)
  obtain r s' where step: "init_extension remote x s = (r, s')"
    by (cases "init_extension remote x s")
  from Cons.prems step have r: "r = None"
    by (cases r) simp_all
  with Cons.prems step have "fst (register_all remote (xs @ ys) s') = None"
    by simp
  from Cons.IH [OF this] step r show ?case by simp
qed

lemma register_all_append:
  "fst (register_all remote xs s) = None \<Longrightarrow>
     register_all remote (xs @ ys) s = register_all remote ys (snd (register_all remote xs s))"
proof (induction xs arbitrary: s)
  case Nil
  show ?case by simp
next
  case (Cons x xs)
  obtain r s' where step: "init_extension remote x s = (r, s')"
    by (cases "init_extension remote x s")
  from Cons.prems step have r: "r = None"
    by (cases r) simp_all
  with Cons.prems step have "fst (register_all remote xs s') = None"
    by simp
  from Cons.IH [OF this] step r show ?case by simp
qed

lemma register_all_log_grows:
  "set (snd s) \<subseteq> set (snd (snd (register_all remote exts s)))"
proof (induction exts arbitrary: s)
  case Nil
  show ?case by simp
next
  case (Cons ext exts)
  obtain r h' lg' where step: "init_extension remote ext s = (r, h', lg')"
    by (cases "init_extension remote ext s")
  from init_extension_log_grows [of "snd s" remote ext "fst s"] step
  have grow: "set (snd s) \<subseteq> set lg'"
    by simp
  show ?case
  proof (cases r)
    case None
    with step Cons.IH [of "(h', lg')"] grow show ?thesis by auto
  next
    case (Some err)
    with step grow show ?thesis by simp
  qed
qed

lemma mContext_registered:
  "fst (register_all remote exts (constructor api_context, [])) = None \<Longrightarrow>
     mContext (registered remote exts) = api_context"
  using register_all_fields [of remote exts "constructor api_context" "[]"]
  by (simp add: registered_def constructor_def)

lemma mInitCalls_registered:
  "fst (register_all remote exts (constructor api_context, [])) = None \<Longrightarrow>
     mInitCalls (registered remote exts) = concat (map (recorded api_context) exts)"
  using register_all_fields [of remote exts "constructor api_context" "[]"]
  by (simp add: registered_def constructor_def)

lemma mApiAdditions_registered:
  "fst (register_all remote exts (constructor api_context, [])) = None \<Longrightarrow>
     mApiAdditions (registered remote exts) = concat (map (contributed api_context) exts)"
  using register_all_fields [of remote exts "constructor api_context" "[]"]
  by (simp add: registered_def constructor_def)

lemma initExtensions_returns:
  assumes "initExtensions remote sUIAPIs exts = Inr (h', lg)"
  shows "fst (register_all remote exts (constructor api_context, [])) = None
     \<and> h' = fst (unloadIncompatible remote sUIAPIs (registered remote exts))"
proof -
  obtain r s where reg: "register_all remote exts (constructor api_context, []) = (r, s)"
    by (cases "register_all remote exts (constructor api_context, [])")
  from assms reg show ?thesis
    by (cases r) (auto simp: initExtensions_def registered_def Let_def)
qed

lemma recorded_user_ext:
  "recorded api_context user_ext =
     [\<lparr> extension = Some ''user'', extensionPath = Some ''/plugins/user'', key = ''registerAction'',
        arguments = [JStr ''menu''], optional = False \<rparr>, widget_call]"
  by (simp add: recorded_def alone_def user_ext_def widget_call_def setExtension_def constructor_def
      proxy_invoke_def get_trap_def recorder_call_def api_context_def Object_prototype_def)

lemma contributed_user_ext: "contributed api_context user_ext = []"
  by (simp add: contributed_def alone_def user_ext_def setExtension_def constructor_def
      proxy_invoke_def get_trap_def recorder_call_def api_context_def Object_prototype_def)

lemma recorded_adder_ext: "recorded api_context adder_ext = []"
  by (simp add: recorded_def alone_def adder_ext_def setExtension_def constructor_def set_trap_def)

lemma contributed_adder_ext:
  "contributed api_context adder_ext = [\<lparr> api_key = ''registerWidget'', callback = Callback 1 returns \<rparr>]"
  by (simp add: contributed_def alone_def adder_ext_def setExtension_def constructor_def set_trap_def)

lemma alone_broken_ext:
  "alone api_context broken_ext =
     (Some (Err (Error ''boom'')),
      (setExtension (constructor api_context) ''broken'' ''/plugins/broken'')
        \<lparr> mInitCalls := [\<lparr> extension = Some ''broken'', extensionPath = Some ''/plugins/broken'',
                           key = ''registerAction'', arguments = [JStr ''first''], optional = False \<rparr>] \<rparr>)"
  by (simp add: alone_def broken_ext_def setExtension_def constructor_def
      proxy_invoke_def get_trap_def recorder_call_def api_context_def Object_prototype_def)

lemma recorded_late_ext:
  "recorded api_context late_ext =
     [\<lparr> extension = Some ''late'', extensionPath = Some ''/plugins/late'', key = ''registerDialog'',
        arguments = [JStr ''about''], optional = False \<rparr>]"
  by (simp add: recorded_def alone_def late_ext_def setExtension_def constructor_def
      proxy_invoke_def get_trap_def recorder_call_def api_context_def Object_prototype_def)

lemma registered_user_adder:
  "register_all False [user_ext, adder_ext] (constructor api_context, []) =
     (None,
      \<lparr> mContext = api_context,
        mInitCalls = [\<lparr> extension = Some ''user'', extensionPath = Some ''/plugins/user'',
                        key = ''registerAction'', arguments = [JStr ''menu''], optional = False \<rparr>,
                      widget_call],
        mApiAdditions = [\<lparr> api_key = ''registerWidget'', callback = Callback 1 returns \<rparr>],
        mCurrentExtension = Some ''adder'', mCurrentPath = Some ''/plugins/adder'' \<rparr>,
      [])"
  by (simp add: init_extension_def Let_def user_ext_def adder_ext_def widget_call_def
      setExtension_def constructor_def proxy_invoke_def get_trap_def recorder_call_def set_trap_def
      api_context_def Object_prototype_def)

lemma initExtensions_user_adder:
  "initExtensions False [] [user_ext, adder_ext] =
     Inr (\<lparr> mContext = api_context,
            mInitCalls = [\<lparr> extension = Some ''user'', extensionPath = Some ''/plugins/user'',
                            key = ''registerAction'', arguments = [JStr ''menu''], optional = False \<rparr>,
                          widget_call],
            mApiAdditions = [\<lparr> api_key = ''registerWidget'', callback = Callback 1 returns \<rparr>],
            mCurrentExtension = Some ''adder'', mCurrentPath = Some ''/plugins/adder'' \<rparr>,
          [])"
  by (simp add: initExtensions_def registered_user_adder unloadIncompatible_def
      incompatibleExtensions_def unsupported_calls_def fullAPI_def staticAPIs_def Let_def
      widget_call_def del: register_all.simps)

text \<open>
  What holds of a throw that the catch block can log: when the registration function of
  \<open>e\<close> throws a value whose \<^verbatim>\<open>message\<close> can be read, and the loop over the extensions
  comes to its end, the log has the warning with the name of \<open>e\<close> and the message, and
  the call log holds, in load order, what each extension records when run on its own.
\<close>

lemma registration_throw_contained:
  assumes "fst (alone api_context e) = Some t" and "read_message t = Inr m"
    and "fst (register_all remote (pre @ e # post) (constructor api_context, [])) = None"
  shows "mInitCalls (registered remote (pre @ e # post)) =
           concat (map (recorded api_context) pre) @ recorded api_context e
             @ concat (map (recorded api_context) post)
     \<and> Log ''warn'' ''couldn't initialize extension'' [(''name'', JStr (name e)), (''err'', m)]
         \<in> set (snd (snd (register_all remote (pre @ e # post) (constructor api_context, []))))"
proof -
  let ?warn = "Log ''warn'' ''couldn't initialize extension'' [(''name'', JStr (name e)), (''err'', m)]"
  let ?s0 = "(constructor api_context, [] :: log_entry list)"
  have calls: "mInitCalls (registered remote (pre @ e # post)) =
           concat (map (recorded api_context) pre) @ recorded api_context e
             @ concat (map (recorded api_context) post)"
    using mInitCalls_registered [OF assms(3)] by simp
  from assms(3) have pre_ok: "fst (register_all remote pre ?s0) = None"
    by (rule register_all_prefix)
  obtain hp lp where pre: "snd (register_all remote pre ?s0) = (hp, lp)"
    by (cases "snd (register_all remote pre ?s0)")
  have "mContext hp = api_context"
    using register_all_fields [OF pre_ok] pre by (simp add: constructor_def)
  with assms(1,2) have "?warn \<in> set (snd (snd (init_extension remote e (hp, lp))))"
    by (simp add: init_extension_alone)
  moreover have "register_all remote (pre @ e # post) ?s0 = register_all remote (e # post) (hp, lp)"
    using register_all_append [OF pre_ok] pre by simp
  moreover obtain r s' where step: "init_extension remote e (hp, lp) = (r, s')"
    by (cases "init_extension remote e (hp, lp)")
  ultimately have "?warn \<in> set (snd (snd (register_all remote (pre @ e # post) ?s0)))"
    using register_all_log_grows [of s' remote post] by (cases r) auto
  with calls show ?thesis by blast
qed

text \<open>
  C6 fails on the code when what is thrown is \<^verbatim>\<open>null\<close> (or \<^verbatim>\<open>undefined\<close>): \<^verbatim>\<open>nuller\<close>
  records a call and throws \<^verbatim>\<open>null\<close>; the catch block reads \<^verbatim>\<open>err.message\<close>, which
  throws a \<^verbatim>\<open>TypeError\<close>; nothing is logged, the loop ends, the registration function of
  \<^verbatim>\<open>late\<close>, which would record a call, is never invoked, and the error leaves
  \<^verbatim>\<open>initExtensions\<close>.
\<close>

theorem registration_null_throw_escapes:
  "register_all False [nuller_ext, late_ext] (constructor api_context, []) =
     (Some (TypeError ''Cannot read property 'message' of null''),
      (setExtension (constructor api_context) ''nuller'' ''/plugins/nuller'')
        \<lparr> mInitCalls := [\<lparr> extension = Some ''nuller'', extensionPath = Some ''/plugins/nuller'',
                           key = ''registerAction'', arguments = [JStr ''first''], optional = False \<rparr>] \<rparr>,
      [])
   \<and> initExtensions False [] [nuller_ext, late_ext] =
       Inl (TypeError ''Cannot read property 'message' of null'')
   \<and> recorded api_context late_ext =
       [\<lparr> extension = Some ''late'', extensionPath = Some ''/plugins/late'', key = ''registerDialog'',
          arguments = [JStr ''about''], optional = False \<rparr>]"
proof -
  have loop: "register_all False [nuller_ext, late_ext] (constructor api_context, []) =
     (Some (TypeError ''Cannot read property 'message' of null''),
      (setExtension (constructor api_context) ''nuller'' ''/plugins/nuller'')
        \<lparr> mInitCalls := [\<lparr> extension = Some ''nuller'', extensionPath = Some ''/plugins/nuller'',
                           key = ''registerAction'', arguments = [JStr ''first''], optional = False \<rparr>] \<rparr>,
      [])"
    by (simp add: init_extension_def Let_def nuller_ext_def setExtension_def constructor_def
        proxy_invoke_def get_trap_def recorder_call_def api_context_def Object_prototype_def)
  then have "initExtensions False [] [nuller_ext, late_ext] =
       Inl (TypeError ''Cannot read property 'message' of null'')"
    by (simp add: initExtensions_def del: register_all.simps)
  with loop recorded_late_ext show ?thesis by simp
qed

text \<open>
  C2. Let \<open>a\<close> and \<open>b\<close> be among the extensions, in any order, let \<open>a\<close> contribute an
  addition for \<open>k\<close>, let \<open>b\<close> record a call of \<open>k\<close> that is not optional, and let
  \<^verbatim>\<open>initExtensions\<close> return. The filtering runs on the handler left by all registration
  functions, so \<open>k\<close> is in its full capability set. If the other calls of \<open>b\<close> that are
  not optional name supported capabilities too, \<open>b\<close> is not in the incompatible set, the
  call is in the final log, and so is every call recorded under the name of \<open>b\<close>, in the
  recorded order.
\<close>

theorem forward_reference_safe:
  assumes "a \<in> set exts" and "b \<in> set exts"
    and "k \<in> api_key ` set (contributed api_context a)"
    and "call \<in> set (recorded api_context b)" and "key call = k" and "\<not> optional call"
    and "\<forall>c \<in> set (mInitCalls (registered remote exts)).
           extension c = Some (name b) \<and> \<not> optional c \<and> key c \<noteq> k \<longrightarrow>
           key c \<in> set (fullAPI sUIAPIs (registered remote exts))"
    and "initExtensions remote sUIAPIs exts = Inr (h', lg)"
  shows "k \<in> set (fullAPI sUIAPIs (registered remote exts))
     \<and> Some (name b) \<notin> set (incompatibleExtensions (fullAPI sUIAPIs (registered remote exts))
                               (mInitCalls (registered remote exts)))
     \<and> call \<in> set (mInitCalls h')
     \<and> filter (\<lambda>c. extension c = Some (name b)) (mInitCalls h') =
       filter (\<lambda>c. extension c = Some (name b)) (mInitCalls (registered remote exts))"
proof -
  let ?h = "registered remote exts"
  let ?full = "fullAPI sUIAPIs ?h"
  let ?bad = "incompatibleExtensions ?full (mInitCalls ?h)"
  from initExtensions_returns [OF assms(8)]
  have completes: "fst (register_all remote exts (constructor api_context, [])) = None"
    and h': "h' = fst (unloadIncompatible remote sUIAPIs ?h)"
    by simp_all
  from assms(1,3) have k: "k \<in> set ?full"
    by (auto simp: set_fullAPI mApiAdditions_registered [OF completes])
  with assms(7) have ok: "\<forall>c \<in> set (mInitCalls ?h). extension c = Some (name b) \<and> \<not> optional c \<longrightarrow> key c \<in> set ?full"
    by blast
  then have b: "Some (name b) \<notin> set ?bad"
    by (auto simp: in_incompatibleExtensions)
  have new: "mInitCalls h' = filter (\<lambda>c. extension c \<notin> set ?bad) (mInitCalls ?h)"
    by (simp add: h' mInitCalls_unloadIncompatible)
  from assms(2,4) have "call \<in> set (mInitCalls ?h)"
    by (auto simp: mInitCalls_registered [OF completes])
  moreover from recorded_tagged [OF assms(4)] have "extension call = Some (name b)"
    by simp
  ultimately have survives: "call \<in> set (mInitCalls h')"
    using b by (simp add: new)
  have same: "filter (\<lambda>c. extension c = Some (name b)) (mInitCalls h') =
       filter (\<lambda>c. extension c = Some (name b)) (mInitCalls ?h)"
    unfolding new using b by (auto intro: filter_cong)
  from k b survives same show ?thesis by blast
qed

theorem forward_reference_safe_witness:
  "adder_ext \<in> set [user_ext, adder_ext] \<and> user_ext \<in> set [user_ext, adder_ext]
   \<and> ''registerWidget'' \<in> api_key ` set (contributed api_context adder_ext)
   \<and> ''registerWidget'' \<notin> set staticAPIs
   \<and> widget_call \<in> set (recorded api_context user_ext)
   \<and> key widget_call = ''registerWidget'' \<and> \<not> optional widget_call
   \<and> Some (name user_ext) \<notin> set (incompatibleExtensions (fullAPI [] (registered False [user_ext, adder_ext]))
                               (mInitCalls (registered False [user_ext, adder_ext])))
   \<and> initExtensions False [] [user_ext, adder_ext] =
       Inr (\<lparr> mContext = api_context,
              mInitCalls = [\<lparr> extension = Some ''user'', extensionPath = Some ''/plugins/user'',
                              key = ''registerAction'', arguments = [JStr ''menu''], optional = False \<rparr>,
                            widget_call],
              mApiAdditions = [\<lparr> api_key = ''registerWidget'', callback = Callback 1 returns \<rparr>],
              mCurrentExtension = Some ''adder'', mCurrentPath = Some ''/plugins/adder'' \<rparr>,
            [])"
proof -
  have a: "adder_ext \<in> set [user_ext, adder_ext]" and b: "user_ext \<in> set [user_ext, adder_ext]"
    by simp_all
  have k: "''registerWidget'' \<in> api_key ` set (contributed api_context adder_ext)"
    by (simp add: contributed_adder_ext)
  have static: "''registerWidget'' \<notin> set staticAPIs"
    by (simp add: staticAPIs_def)
  have call: "widget_call \<in> set (recorded api_context user_ext)"
    by (simp add: recorded_user_ext)
  have key: "key widget_call = ''registerWidget''" and opt: "\<not> optional widget_call"
    by (simp_all add: widget_call_def)
  have completes: "fst (register_all False [user_ext, adder_ext] (constructor api_context, [])) = None"
    by (simp add: registered_user_adder del: register_all.simps)
  have rest: "\<forall>c \<in> set (mInitCalls (registered False [user_ext, adder_ext])).
           extension c = Some (name user_ext) \<and> \<not> optional c \<and> key c \<noteq> ''registerWidget'' \<longrightarrow>
           key c \<in> set (fullAPI [] (registered False [user_ext, adder_ext]))"
    by (simp add: mInitCalls_registered [OF completes] recorded_user_ext recorded_adder_ext widget_call_def
        fullAPI_def staticAPIs_def)
  note ret = initExtensions_user_adder
  from forward_reference_safe [OF a b k call key opt rest ret] a b k static call key opt ret
  show ?thesis by blast
qed

section \<open>Replaying the additions\<close>

lemma invoke_calls_returns:
  assumes "\<forall>call \<in> set calls. cb_call cb (arguments call @ [opt_str (extensionPath call)]) = None"
  shows "invoke_calls cb calls tr =
           (None, tr @ map (\<lambda>call. (cb_id cb, arguments call @ [opt_str (extensionPath call)])) calls)"
  using assms by (induction calls arbitrary: tr) (simp_all add: Let_def)

lemma invoke_each_returns:
  assumes "\<forall>addition \<in> set additions. \<forall>call \<in> set (getCalls h (api_key addition)).
             cb_call (callback addition) (arguments call @ [opt_str (extensionPath call)]) = None"
  shows "invoke_each h additions tr =
           (None, tr @ concat (map (\<lambda>addition.
              map (\<lambda>call. (cb_id (callback addition), arguments call @ [opt_str (extensionPath call)]))
                (getCalls h (api_key addition))) additions))"
  using assms
proof (induction additions arbitrary: tr)
  case Nil
  show ?case by simp
next
  case (Cons addition additions)
  from Cons.prems have "\<forall>call \<in> set (getCalls h (api_key addition)).
      cb_call (callback addition) (arguments call @ [opt_str (extensionPath call)]) = None"
    by simp
  from invoke_calls_returns [OF this] Cons.IH Cons.prems show ?case by simp
qed

text \<open>
  What holds when no callback throws: each pair of an addition and a recorded call of
  its key gives exactly one invocation of the addition's callback, in the order of the
  additions and of the log, with the recorded arguments followed by the recorded
  extension path.
\<close>

lemma invokeAdditions_when_callbacks_return:
  assumes "\<forall>addition \<in> set (mApiAdditions h). \<forall>call \<in> set (getCalls h (api_key addition)).
             cb_call (callback addition) (arguments call @ [opt_str (extensionPath call)]) = None"
  shows "invokeAdditions h =
           (None, concat (map (\<lambda>addition.
              map (\<lambda>call. (cb_id (callback addition), arguments call @ [opt_str (extensionPath call)]))
                (getCalls h (api_key addition))) (mApiAdditions h)))"
  using invoke_each_returns [OF assms, of "[]"] by (simp add: invokeAdditions_def)

lemma initExtensions_tagged:
  assumes "initExtensions remote sUIAPIs exts = Inr (h', lg)" and "call \<in> set (mInitCalls h')"
  shows "\<exists>x \<in> set exts. extension call = Some (name x) \<and> extensionPath call = Some (path x)"
proof -
  from initExtensions_returns [OF assms(1)] assms(2)
  have "\<exists>x \<in> set exts. call \<in> set (recorded api_context x)"
    by (auto simp: mInitCalls_unloadIncompatible mInitCalls_registered)
  with recorded_tagged show ?thesis by blast
qed

lemma initExtensions_faulty:
  "initExtensions False [] [faulty_ext, user_ext, second_ext] = Inr (faulty_handler, [])"
proof -
  have "register_all False [faulty_ext, user_ext, second_ext] (constructor api_context, []) =
      (None, faulty_handler, [])"
    by (simp add: init_extension_def Let_def faulty_ext_def user_ext_def second_ext_def
        faulty_handler_def widget_call_def second_widget_call_def setExtension_def constructor_def
        proxy_invoke_def get_trap_def recorder_call_def set_trap_def api_context_def
        Object_prototype_def)
  then show ?thesis
    by (simp add: initExtensions_def unloadIncompatible_def incompatibleExtensions_def
        unsupported_calls_def fullAPI_def staticAPIs_def Let_def faulty_handler_def
        widget_call_def second_widget_call_def del: register_all.simps)
qed

text \<open>
  C9 fails on the code when the callback of an addition throws. \<^verbatim>\<open>faulty\<close> contributes
  \<^verbatim>\<open>registerWidget\<close> with a callback that throws, \<^verbatim>\<open>user\<close> and \<^verbatim>\<open>second\<close> each call it;
  both calls survive the filtering. \<^verbatim>\<open>invokeAdditions\<close> invokes the callback for the
  call of \<^verbatim>\<open>user\<close>, the error leaves \<^verbatim>\<open>invokeAdditions\<close>, and the callback is never
  invoked for the call of \<^verbatim>\<open>second\<close>.
\<close>

theorem invokeAdditions_throw_ends_replay:
  "initExtensions False [] [faulty_ext, user_ext, second_ext] = Inr (faulty_handler, [])
   \<and> getCalls faulty_handler ''registerWidget'' = [widget_call, second_widget_call]
   \<and> invokeAdditions faulty_handler =
       (Some (Err (Error ''bad'')), [(3, [JNum 1, JStr ''/plugins/user''])])"
proof -
  have calls: "getCalls faulty_handler ''registerWidget'' = [widget_call, second_widget_call]"
    by (simp add: getCalls_def faulty_handler_def widget_call_def second_widget_call_def)
  have "invokeAdditions faulty_handler =
       (Some (Err (Error ''bad'')), [(3, [JNum 1, JStr ''/plugins/user''])])"
    by (simp add: invokeAdditions_def getCalls_def faulty_handler_def widget_call_def
        second_widget_call_def throws_def Let_def)
  with initExtensions_faulty calls show ?thesis by simp
qed

section \<open>The change watcher\<close>

lemma stateChangeHandler_known_key:
  assumes "mWatches m (join ''.'' (map Some p)) = Some cbs"
  shows "stateChangeHandler m p cb =
           (None, m\<lparr> mWatches := (mWatches m)(join ''.'' (map Some p) \<mapsto> cbs @ [cb]) \<rparr>)"
  using assms by (simp add: stateChangeHandler_def Let_def)

text \<open>
  What holds in the renderer process, for a key that names no member of
  \<^verbatim>\<open>Object.prototype\<close>: two calls on a path not watched before add exactly one
  subscription.
\<close>

lemma stateChangeHandler_twice:
  assumes "mReduxWatcher m = Some subs" and "mWatches m (join ''.'' (map Some p)) = None"
    and "join ''.'' (map Some p) \<notin> set (map fst Object_prototype)"
  shows "fst (stateChangeHandler m p cb1) = None
     \<and> stateChangeHandler (snd (stateChangeHandler m p cb1)) p cb2 =
        (None, m\<lparr> mWatches := (mWatches m)(join ''.'' (map Some p) \<mapsto> [cb1, cb2]),
                  mReduxWatcher := Some (subs @ [\<lparr> sub_path = p, sub_key = join ''.'' (map Some p),
                                                   lastValue = JUndefined \<rparr>]) \<rparr>)"
  using assms by (simp add: stateChangeHandler_def Let_def)

lemma stateChangeHandler_inherited_key:
  assumes "mWatches m (join ''.'' (map Some p)) = None"
    and "join ''.'' (map Some p) \<in> set (map fst Object_prototype)"
  shows "stateChangeHandler m p cb =
           (Some (TypeError ''this.mWatches[key].push is not a function''), m)"
  using assms by (simp add: stateChangeHandler_def Let_def)

lemma notify_unchanged:
  assumes "mReduxWatcher w = Some ss" and "i < length ss"
    and "strict_equals cur (lastValue (ss ! i))"
  shows "notify w i prev cur = (None, w, [], [])"
  using assms by (simp add: notify_def Let_def)

lemma call_guarded_logged:
  assumes "\<forall>cb \<in> set cbs. \<forall>t. cb_call cb args = Some t \<longrightarrow> (\<exists>m. read_message t = Inr m)"
  shows "call_guarded cbs args =
           (None, map (\<lambda>cb. (cb_id cb, args)) cbs,
            concat (map (\<lambda>cb. case cb_call cb args of
                          None \<Rightarrow> []
                        | Some t \<Rightarrow>
                            (case read_message t of
                               Inl err \<Rightarrow> []
                             | Inr m \<Rightarrow> [Log ''error'' ''state change handler failed''
                                            [(''message'', m), (''stack'', read_stack t)]])) cbs))"
  using assms
proof (induction cbs)
  case Nil
  show ?case by simp
next
  case (Cons cb cbs)
  then have rest: "call_guarded cbs args =
           (None, map (\<lambda>cb. (cb_id cb, args)) cbs,
            concat (map (\<lambda>cb. case cb_call cb args of
                          None \<Rightarrow> []
                        | Some t \<Rightarrow>
                            (case read_message t of
                               Inl err \<Rightarrow> []
                             | Inr m \<Rightarrow> [Log ''error'' ''state change handler failed''
                                            [(''message'', m), (''stack'', read_stack t)]])) cbs))"
    by simp
  show ?case
  proof (cases "cb_call cb args")
    case None
    with rest show ?thesis by (simp add: Let_def)
  next
    case (Some t)
    with Cons.prems obtain m where "read_message t = Inr m"
      by auto
    with Some rest show ?thesis by (simp add: Let_def)
  qed
qed

text \<open>
  What holds when every callback returns or throws a value whose \<^verbatim>\<open>message\<close> can be
  read: a notification whose value is not \<^verbatim>\<open>===\<close> to \<^verbatim>\<open>lastValue\<close> stores the value and
  invokes every callback of the key in registration order, with one log entry for each
  callback that throws.
\<close>

lemma notify_changed:
  assumes "mReduxWatcher w = Some ss" and "i < length ss"
    and "mWatches w (sub_key (ss ! i)) = Some cbs"
    and "\<not> strict_equals cur (lastValue (ss ! i))"
    and "\<forall>cb \<in> set cbs. \<forall>t. cb_call cb [prev, cur] = Some t \<longrightarrow> (\<exists>m. read_message t = Inr m)"
  shows "notify w i prev cur =
           (None, w\<lparr> mReduxWatcher := Some (ss[i := (ss ! i)\<lparr> lastValue := cur \<rparr>]) \<rparr>,
            map (\<lambda>cb. (cb_id cb, [prev, cur])) cbs,
            concat (map (\<lambda>cb. case cb_call cb [prev, cur] of
                          None \<Rightarrow> []
                        | Some t \<Rightarrow>
                            (case read_message t of
                               Inl err \<Rightarrow> []
                             | Inr m \<Rightarrow> [Log ''error'' ''state change handler failed''
                                            [(''message'', m), (''stack'', read_stack t)]])) cbs))"
  using assms(1-4) call_guarded_logged [OF assms(5)] by (simp add: notify_def Let_def)

lemma watched_twice_eq:
  "watched_twice =
     \<lparr> mWatches = [''settings.interface.language'' \<mapsto> [Callback 1 (throws ''bad''), Callback 2 returns]],
       mReduxWatcher = Some [\<lparr> sub_path = language_path, sub_key = ''settings.interface.language'',
                                lastValue = JUndefined \<rparr>] \<rparr>"
  by (simp add: watched_twice_def stateChangeHandler_def Let_def empty_watcher_def language_path_def
      Object_prototype_def)

lemma nulling_watched_eq:
  "nulling_watched =
     \<lparr> mWatches = [''settings.interface.language'' \<mapsto> [Callback 1 (throws_value JNull), Callback 2 returns]],
       mReduxWatcher = Some [\<lparr> sub_path = language_path, sub_key = ''settings.interface.language'',
                                lastValue = JUndefined \<rparr>] \<rparr>"
  by (simp add: nulling_watched_def stateChangeHandler_def Let_def empty_watcher_def language_path_def
      Object_prototype_def)

lemma watched_twice_fans_out:
  "notify watched_twice 0 (JStr ''en'') (JStr ''de'') =
     (None,
      watched_twice\<lparr> mReduxWatcher :=
        Some [\<lparr> sub_path = language_path, sub_key = ''settings.interface.language'',
                lastValue = JStr ''de'' \<rparr>] \<rparr>,
      [(1, [JStr ''en'', JStr ''de'']), (2, [JStr ''en'', JStr ''de''])],
      [Log ''error'' ''state change handler failed''
         [(''message'', JStr ''bad''), (''stack'', JStr ''Error: bad'')]])"
  by (simp add: watched_twice_eq notify_def Let_def throws_def returns_def)

text \<open>
  C8 fails on the code in three ways. A first change of the watched value to
  \<^verbatim>\<open>undefined\<close> is taken for no change, because \<^verbatim>\<open>lastValue\<close> starts \<^verbatim>\<open>undefined\<close>: no
  callback is invoked. When the first of two callbacks throws \<^verbatim>\<open>null\<close>, the catch block
  throws on \<^verbatim>\<open>err.message\<close>: nothing is logged, the second callback is never invoked and
  the error reaches the watcher. In the main process, where \<^verbatim>\<open>setupApiMain\<close> makes no
  \<^verbatim>\<open>mReduxWatcher\<close>, the first of two calls on a path throws, the second returns, and
  there is no subscription.
\<close>

theorem watcher_misses_changes:
  "notify watched_twice 0 (JStr ''en'') JUndefined = (None, watched_twice, [], [])
   \<and> fst (notify nulling_watched 0 (JStr ''en'') (JStr ''de'')) =
       Some (TypeError ''Cannot read property 'message' of null'')
   \<and> snd (snd (notify nulling_watched 0 (JStr ''en'') (JStr ''de''))) =
       ([(1, [JStr ''en'', JStr ''de''])], [])
   \<and> mWatches nulling_watched ''settings.interface.language'' =
       Some [Callback 1 (throws_value JNull), Callback 2 returns]
   \<and> stateChangeHandler main_process_watcher language_path (Callback 1 returns) =
       (Some (TypeError ''Cannot read property 'watch' of undefined''),
        \<lparr> mWatches = [''settings.interface.language'' \<mapsto> []], mReduxWatcher = None \<rparr>)
   \<and> stateChangeHandler
        (snd (stateChangeHandler main_process_watcher language_path (Callback 1 returns)))
        language_path (Callback 2 returns) =
       (None, \<lparr> mWatches = [''settings.interface.language'' \<mapsto> [Callback 2 returns]],
                mReduxWatcher = None \<rparr>)"
proof -
  have r2: "notify watched_twice 0 (JStr ''en'') JUndefined = (None, watched_twice, [], [])"
    by (simp add: watched_twice_eq notify_def Let_def)
  have r4: "notify nulling_watched 0 (JStr ''en'') (JStr ''de'') =
      (Some (TypeError ''Cannot read property 'message' of null''),
       nulling_watched\<lparr> mReduxWatcher :=
         Some [\<lparr> sub_path = language_path, sub_key = ''settings.interface.language'',
                 lastValue = JStr ''de'' \<rparr>] \<rparr>,
       [(1, [JStr ''en'', JStr ''de''])], [])"
    by (simp add: nulling_watched_eq notify_def Let_def throws_value_def returns_def)
  have reg: "mWatches nulling_watched ''settings.interface.language'' =
       Some [Callback 1 (throws_value JNull), Callback 2 returns]"
    by (simp add: nulling_watched_eq)
  have r3a: "stateChangeHandler main_process_watcher language_path (Callback 1 returns) =
       (Some (TypeError ''Cannot read property 'watch' of undefined''),
        \<lparr> mWatches = [''settings.interface.language'' \<mapsto> []], mReduxWatcher = None \<rparr>)"
    by (simp add: stateChangeHandler_def Let_def main_process_watcher_def language_path_def
        Object_prototype_def)
  have r3b: "stateChangeHandler
        \<lparr> mWatches = [''settings.interface.language'' \<mapsto> []], mReduxWatcher = None \<rparr>
        language_path (Callback 2 returns) =
       (None, \<lparr> mWatches = [''settings.interface.language'' \<mapsto> [Callback 2 returns]],
                mReduxWatcher = None \<rparr>)"
    by (simp add: stateChangeHandler_def Let_def language_path_def)
  from r2 r4 reg r3a r3b show ?thesis by simp
qed

section \<open>The metadata store\<close>

text \<open>
  What holds of one call whose callbacks run with no callback of another call in
  between, when \<^verbatim>\<open>close()\<close> resolves and the constructor returns: the stale instance is
  closed, the manager holds no instance, and then the instance for the current game and
  key is constructed and the game and key are stored.
\<close>

lemma getModDB_alone_rotates:
  assumes "mModDB s = Some old"
    and "game \<noteq> mModDBGame s \<or> Some apikey \<noteq> mModDBAPIKey s"
    and "mModDBPromise s \<noteq> Some Pending"
  shows "run [Call game apikey, First 0, CloseSettles 0 None, Second 0 None fresh, Last 0] (idle s) =
           Some \<lparr> broker = s\<lparr> mModDB := Some \<lparr> db_id = fresh, gameId = game, apiKey = apikey \<rparr>,
                             mModDBPromise := Some Resolved,
                             mModDBGame := game, mModDBAPIKey := Some apikey \<rparr>,
                  requests = [\<lparr> currentGame = game, currentKey = apikey,
                                onDone = (mModDBPromise s = None),
                                stage = Settled (Inr \<lparr> db_id = fresh, gameId = game, apiKey = apikey \<rparr>) \<rparr>],
                  db_events = [CloseCalled old, Closed old,
                               Constructed \<lparr> db_id = fresh, gameId = game, apiKey = apikey \<rparr>],
                  db_log = [Log ''debug'' ''initialised'' []] \<rparr>"
proof -
  from assms(3) have p: "mModDBPromise s = None \<or> mModDBPromise s = Some Resolved"
    by (cases "mModDBPromise s") (auto intro: promise_state.exhaust)
  from p assms(1,2) show ?thesis
    by (auto simp: idle_def getModDB_def first_then_def close_settles_def second_then_def
        last_callback_def set_stage_def Let_def)
qed

text \<open>
  C7 fails on the code when two calls overlap. \<^verbatim>\<open>mModDBPromise\<close> is resolved and never
  replaced, so nothing holds the second call back. Both first callbacks find the instance
  for game A stale and call \<^verbatim>\<open>close()\<close> on it. The first call then constructs an
  instance for game B. When the second \<^verbatim>\<open>close()\<close> resolves, \<^verbatim>\<open>mModDB\<close> is set to
  \<^verbatim>\<open>undefined\<close> again, which drops that instance unclosed, and the second call constructs
  another: two instances are live, and each caller holds one of them.
\<close>

theorem getModDB_overlapping_calls:
  "map_option db_events (run overlapping_calls (idle broker_A)) =
     Some [CloseCalled db_A, CloseCalled db_A, Closed db_A, Constructed db_B,
           Closed db_A, Constructed db_B2]
   \<and> live_after [db_A]
       [CloseCalled db_A, CloseCalled db_A, Closed db_A, Constructed db_B,
        Closed db_A, Constructed db_B2] = [db_B, db_B2]
   \<and> map_option (\<lambda>c. map stage (requests c)) (run overlapping_calls (idle broker_A)) =
       Some [Settled (Inr db_B), Settled (Inr db_B2)]
   \<and> map_option (\<lambda>c. mModDB (broker c)) (run overlapping_calls (idle broker_A)) = Some (Some db_B2)"
proof -
  have "run overlapping_calls (idle broker_A) =
      Some \<lparr> broker = \<lparr> mModDB = Some db_B2, mModDBPromise = Some Resolved, mModDBGame = Some ''B'',
                        mModDBAPIKey = Some ''k1'' \<rparr>,
             requests = [\<lparr> currentGame = Some ''B'', currentKey = ''k1'', onDone = False,
                           stage = Settled (Inr db_B) \<rparr>,
                         \<lparr> currentGame = Some ''B'', currentKey = ''k1'', onDone = False,
                           stage = Settled (Inr db_B2) \<rparr>],
             db_events = [CloseCalled db_A, CloseCalled db_A, Closed db_A, Constructed db_B,
                          Closed db_A, Constructed db_B2],
             db_log = [Log ''debug'' ''initialised'' [], Log ''debug'' ''initialised'' []] \<rparr>"
    by (simp add: overlapping_calls_def idle_def broker_A_def db_A_def db_B_def db_B2_def
        getModDB_def first_then_def close_settles_def second_then_def last_callback_def
        set_stage_def Let_def)
  moreover have "live_after [db_A]
       [CloseCalled db_A, CloseCalled db_A, Closed db_A, Constructed db_B,
        Closed db_A, Constructed db_B2] = [db_B, db_B2]"
    by (simp add: db_A_def db_B_def db_B2_def)
  ultimately show ?thesis by simp
qed

end
